theory Spec2Isabelle
  imports Complex_Main "HOL-Library.Word"
begin

section \<open>Data model\<close>

text \<open>
  The crawler's worker pool (\<^verbatim>\<open>internal/worker/pool.go\<close>, \<^verbatim>\<open>pool_enhanced.go\<close>), its
  configuration (\<^verbatim>\<open>internal/config/config.go\<close>) and the retrying GitHub client
  (\<^verbatim>\<open>internal/github/client.go\<close>), as a shallow embedding.

  Go's \<^verbatim>\<open>int\<close> and \<^verbatim>\<open>int64\<close> are modelled as \<^typ>\<open>int\<close>: the values involved are
  queue lengths, file sizes and header counters. A \<^verbatim>\<open>float64\<close> is modelled as an exact
  \<^typ>\<open>real\<close> where it is finite; a division by zero is modelled separately. A byte is an
  \<^typ>\<open>8 word\<close>, a string a list of bytes written as characters. Timestamps of results,
  metrics and log lines are left out.
\<close>

type_synonym byte = "8 word"

record Config =
  GitHubBaseURL :: string
  MaxWorkers :: int
  APIRateLimitThreshold :: int
  FetchTimeoutMS :: int
  RetryMaxAttempts :: int
  RetryBackoffBaseMS :: int
  MaxFileSize :: int
  MaxConcurrentFetches :: int
  MemoryLimitPercent :: real
  EnableMemoryMonitor :: bool
  BackpressureThreshold :: real
  TaskBufferSize :: int
  EnableAdaptiveRateLimit :: bool
  RateLimitMinRate :: real
  RateLimitMaxRate :: real
  RateLimitAdjustFactor :: real
  AllowedExtensions :: "string list"
  EnableBinaryDetection :: bool

record WorkerTask =
  Path :: string
  SHA :: string
  Size :: int
  Owner :: string
  Repo :: string
  Ref :: string

text \<open>
  Every error value the modelled code builds. \<open>External\<close> stands for an error that comes
  from outside (the HTTP transport, a decoder), carried by its message; \<open>Wrap\<close> is
  \<^verbatim>\<open>fmt.Errorf\<close> with a prefix and \<^verbatim>\<open>%w\<close>.
\<close>

datatype error =
    AlreadyRunning
  | QueueFull
  | Canceled
  | DeadlineExceeded
  | FileTooLarge int int
  | BinarySkipped
  | InvalidUTF8
  | External string
  | APIError int string
  | Wrap string error
  | MaxRetriesExceeded "error option"
  | Panic string

record FileResult =
  resPath :: string
  resContent :: "byte list"
  resSHA :: string
  resSize :: int
  resError :: "error option"

subsection \<open>Error messages\<close>

definition digit_char :: "nat \<Rightarrow> char" where
  "digit_char d = ''0123456789'' ! d"

function digits :: "nat \<Rightarrow> string" where
  "digits n = (if n < 10 then [digit_char n] else digits (n div 10) @ [digit_char (n mod 10)])"
  by pat_completeness auto
termination
  by (relation "measure (\<lambda>n. n)") auto

definition show_int :: "int \<Rightarrow> string" where
  "show_int i = (if i < 0 then CHR ''-'' # digits (nat (- i)) else digits (nat i))"

fun error_message :: "error \<Rightarrow> string" where
  "error_message AlreadyRunning = ''worker pool is already running''"
| "error_message QueueFull = ''task queue is full''"
| "error_message Canceled = ''context canceled''"
| "error_message DeadlineExceeded = ''context deadline exceeded''"
| "error_message (FileTooLarge s l) =
     ''file size '' @ show_int s @ '' exceeds limit '' @ show_int l"
| "error_message BinarySkipped = ''skipping binary file''"
| "error_message InvalidUTF8 = ''file content is not valid UTF-8''"
| "error_message (External m) = m"
| "error_message (APIError status body) = ''API error '' @ show_int status @ '': '' @ body"
| "error_message (Wrap prefix e) = prefix @ error_message e"
| "error_message (MaxRetriesExceeded None) = ''max retries exceeded, last error: %!w(<nil>)''"
| "error_message (MaxRetriesExceeded (Some e)) =
     ''max retries exceeded, last error: '' @ error_message e"
| "error_message (Panic m) = ''panic: '' @ m"

section \<open>The basic pool\<close>

subsection \<open>Content filter\<close>

definition nonPrintable :: "byte \<Rightarrow> bool" where
  "nonPrintable b = (b < 9 \<or> (b > 13 \<and> b < 32) \<or> b > 126)"

text \<open>
  The last comparison is between two \<^verbatim>\<open>float64\<close>s. The sample has at most 8192 bytes, so
  a quotient above three tenths is above it by \<open>1 / 81920\<close> at least and the rounded
  comparison agrees with the exact one.
\<close>

definition IsBinaryContent :: "byte list \<Rightarrow> bool" where
  "IsBinaryContent content =
     (if length content = 0 then False
      else
        let checkSize = (if length content < 8192 then length content else 8192);
            sample = take checkSize content
        in if list_ex (\<lambda>b. b = 0) sample then True
           else real (length (filter nonPrintable sample)) / real (length sample) > 0.30)"

text \<open>
  \<^verbatim>\<open>strings.ToLower\<close>, \<^verbatim>\<open>filepath.Ext\<close> and \<^verbatim>\<open>filepath.Base\<close> of the Go standard library, on
  a Unix path. \<open>ToLower\<close> maps the ASCII letters; the bytes of other characters stay.
\<close>

definition toLower_char :: "char \<Rightarrow> char" where
  "toLower_char c =
     (let n = (of_char c :: nat) in if 65 \<le> n \<and> n \<le> 90 then char_of (n + 32) else c)"

definition ToLower :: "string \<Rightarrow> string" where
  "ToLower s = map toLower_char s"







subsection \<open>Processing one task\<close>

text \<open>
  \<open>GetFileContent\<close> is the GitHub client's fetch as the pool sees it and \<open>utf8_Valid\<close> is
  the standard library's \<^verbatim>\<open>utf8.Valid\<close>; both are parameters. \<open>processTask\<close> returns the
  result and the list of the tasks it called the fetch for.
\<close>

record Env =
  GetFileContent :: "WorkerTask \<Rightarrow> error + byte list"
  utf8_Valid :: "byte list \<Rightarrow> bool"

definition processTask :: "Env \<Rightarrow> Config \<Rightarrow> WorkerTask \<Rightarrow> FileResult \<times> WorkerTask list" where
  "processTask env cfg task =
     (let result = \<lparr> resPath = Path task, resContent = [], resSHA = SHA task,
                     resSize = Size task, resError = None \<rparr>
      in if Size task > MaxFileSize cfg
         then (result\<lparr> resError := Some (FileTooLarge (Size task) (MaxFileSize cfg)) \<rparr>, [])
         else
           (case GetFileContent env task of
              Inl err \<Rightarrow> (result\<lparr> resError := Some err \<rparr>, [task])
            | Inr content \<Rightarrow>
                if EnableBinaryDetection cfg \<and> IsBinaryContent content
                then (result\<lparr> resError := Some BinarySkipped \<rparr>, [task])
                else if \<not> utf8_Valid env content
                then (result\<lparr> resError := Some InvalidUTF8 \<rparr>, [task])
                else (result\<lparr> resContent := content, resSize := int (length content) \<rparr>,
                      [task])))"

subsection \<open>Pool state, workers, start and stop\<close>

text \<open>
  A buffered channel is the list of the values it holds, oldest first; its capacity is
  \<open>MaxConcurrentFetches\<close>. \<open>cancelled\<close> is the state of the pool's context and
  \<open>workerPoolSize\<close> the gauge of the same name. \<open>workers\<close> holds one entry for each worker
  goroutine started: a worker waits in its outer \<^verbatim>\<open>select\<close> (\<open>AtRecv\<close>), waits in the \<^verbatim>\<open>select\<close>
  that sends its result (\<open>AtSend\<close>), or has returned (\<open>Exited\<close>).
\<close>

datatype wstate = AtRecv | AtSend FileResult | Exited

record Pool =
  config :: Config
  taskChan :: "WorkerTask list"
  resultChan :: "FileResult list"
  taskChanClosed :: bool
  resultChanClosed :: bool
  cancelled :: bool
  workers :: "wstate list"
  activeWorkers :: int
  workerPoolSize :: int

definition NewPool :: "Config \<Rightarrow> Pool" where
  "NewPool cfg =
     \<lparr> config = cfg, taskChan = [], resultChan = [],
       taskChanClosed = False, resultChanClosed = False, cancelled = False,
       workers = [], activeWorkers = 0, workerPoolSize = MaxWorkers cfg \<rparr>"

text \<open>The loop of \<open>Start\<close>: \<^verbatim>\<open>for i := range n\<close> runs for \<open>i = 0, ..., n - 1\<close>.\<close>

fun start_workers :: "int list \<Rightarrow> Pool \<Rightarrow> Pool" where
  "start_workers [] p = p"
| "start_workers (i # is) p =
     start_workers is (p\<lparr> workers := workers p @ [AtRecv], activeWorkers := activeWorkers p + 1 \<rparr>)"

definition Start :: "Pool \<Rightarrow> error option \<times> Pool" where
  "Start p =
     (if activeWorkers p > 0 then (Some AlreadyRunning, p)
      else
        let p' = start_workers [0 .. MaxWorkers (config p) - 1] p
        in (None, p'\<lparr> workerPoolSize := activeWorkers p' \<rparr>))"

definition GetQueueDepth :: "Pool \<Rightarrow> int" where
  "GetQueueDepth p = int (length (taskChan p))"

definition IsRunning :: "Pool \<Rightarrow> bool" where
  "IsRunning p = (activeWorkers p > 0)"

text \<open>
  \<open>SubmitTask\<close> is a non-blocking \<^verbatim>\<open>select\<close> with a default case. When the pool's context
  is cancelled and the channel has room both cases are ready and Go picks either; \<open>pick_done\<close>
  is that choice. A send on a closed channel panics.
\<close>

definition SubmitTask :: "bool \<Rightarrow> WorkerTask \<Rightarrow> Pool \<Rightarrow> error option \<times> Pool" where
  "SubmitTask pick_done task p =
     (let room = (int (length (taskChan p)) < MaxConcurrentFetches (config p));
          sendReady = (room \<or> taskChanClosed p)
      in if sendReady \<and> \<not> (cancelled p \<and> pick_done)
         then (if taskChanClosed p then (Some (Panic ''send on closed channel''), p)
               else (None, p\<lparr> taskChan := taskChan p @ [task] \<rparr>))
         else if cancelled p then (Some Canceled, p)
         else (Some QueueFull, p))"

text \<open>
  One step of worker \<open>i\<close>: the \<^verbatim>\<open>select\<close> it waits in fires. Where two cases are ready
  \<open>pick_done\<close> says whether Go picks \<^verbatim>\<open>ctx.Done()\<close>. A worker none of whose cases is ready
  stays where it is. Receiving from the closed and empty task channel makes the worker
  return. The fetch of \<open>processTask\<close> is taken as one step with the receive.
\<close>

definition worker_step :: "Env \<Rightarrow> nat \<Rightarrow> bool \<Rightarrow> Pool \<Rightarrow> Pool" where
  "worker_step env i pick_done p =
     (if i \<ge> length (workers p) then p
      else
        (case workers p ! i of
           Exited \<Rightarrow> p
         | AtRecv \<Rightarrow>
             (let recvReady = (taskChan p \<noteq> [] \<or> taskChanClosed p)
              in if cancelled p \<and> (pick_done \<or> \<not> recvReady)
                 then p\<lparr> workers := (workers p)[i := Exited] \<rparr>
                 else if recvReady then
                   (case taskChan p of
                      [] \<Rightarrow> p\<lparr> workers := (workers p)[i := Exited] \<rparr>
                    | task # rest \<Rightarrow>
                        p\<lparr> taskChan := rest,
                           workers := (workers p)[i := AtSend (fst (processTask env (config p) task))] \<rparr>)
                 else p)
         | AtSend result \<Rightarrow>
             (let sendReady = (int (length (resultChan p)) < MaxConcurrentFetches (config p))
              in if cancelled p \<and> (pick_done \<or> \<not> sendReady)
                 then p\<lparr> workers := (workers p)[i := Exited] \<rparr>
                 else if sendReady then
                   p\<lparr> resultChan := resultChan p @ [result], workers := (workers p)[i := AtRecv] \<rparr>
                 else p)))"

text \<open>
  \<open>Stop\<close> of the basic pool. \<open>steps\<close> is what the workers do while \<open>Stop\<close> waits for them:
  each entry is one step of one worker; the workers that have not returned after these
  steps return through \<^verbatim>\<open>ctx.Done()\<close>, which is ready for all of them. Closing a closed
  channel panics.
\<close>

fun run_workers :: "Env \<Rightarrow> (nat \<times> bool) list \<Rightarrow> Pool \<Rightarrow> Pool" where
  "run_workers env [] p = p"
| "run_workers env ((i, pick_done) # steps) p = run_workers env steps (worker_step env i pick_done p)"

definition Pool_Stop :: "Env \<Rightarrow> (nat \<times> bool) list \<Rightarrow> Pool \<Rightarrow> error option \<times> Pool" where
  "Pool_Stop env steps p =
     (let p1 = p\<lparr> cancelled := True \<rparr>
      in if taskChanClosed p1 then (Some (Panic ''close of closed channel''), p1)
         else
           let p2 = run_workers env steps (p1\<lparr> taskChanClosed := True \<rparr>);
               p3 = p2\<lparr> workers := map (\<lambda>w. Exited) (workers p2) \<rparr>
           in if resultChanClosed p3 then (Some (Panic ''close of closed channel''), p3)
              else (None, p3\<lparr> resultChanClosed := True, activeWorkers := 0, workerPoolSize := 0 \<rparr>))"

section \<open>The enhanced pool\<close>

record RateLimitWindow =
  windowSize :: int
  limit :: int
  remaining :: int
  resetTime :: int

record AdaptiveRateLimiter =
  currentRate :: real
  minRate :: real
  maxRate :: real
  adjustmentFactor :: real
  lastAdjustment :: int
  backoffMultiplier :: real

text \<open>
  \<open>pauseChan\<close> is the identity of the channel the field holds: \<open>resumeWorkers\<close> closes the
  channel and stores a fresh one, so a goroutine that waits on channel \<open>c\<close> is released
  once the field differs from \<open>c\<close>. \<open>flushGoroutines\<close> counts the goroutines started by
  \<^verbatim>\<open>go ep.flushBufferedTasks()\<close>, \<open>monitorRunning\<close> says whether the memory monitor runs, and
  \<open>memoryMonitorStop\<close> whether that channel is closed.
\<close>

record EnhancedPool =
  basePool :: Pool
  memoryLimit :: int
  currentMemoryUse :: int
  memoryPressure :: bool
  rateLimitWindow :: RateLimitWindow
  adaptiveRateLimit :: AdaptiveRateLimiter
  pauseChan :: nat
  isPaused :: bool
  backpressureLimit :: int
  droppedTasksBuffer :: "WorkerTask list"
  memoryMonitorStop :: bool
  monitorRunning :: bool
  flushGoroutines :: nat

text \<open>
  Times are nanoseconds since the Unix epoch, durations nanoseconds. \<open>zeroTime\<close> is the
  zero \<^verbatim>\<open>time.Time\<close> (1 January of year 1), which a field never assigned holds;
  \<^verbatim>\<open>time.Since\<close> saturates at the largest and the smallest \<^verbatim>\<open>Duration\<close>.
\<close>

definition zeroTime :: int where
  "zeroTime = - 62135596800 * 1000000000"

definition Minute :: int where
  "Minute = 60 * 1000000000"

definition Hour :: int where
  "Hour = 60 * Minute"

definition time_Since :: "int \<Rightarrow> int \<Rightarrow> int" where
  "time_Since now t =
     (let d = now - t
      in if d > 2 ^ 63 - 1 then 2 ^ 63 - 1 else if d < - (2 ^ 63) then - (2 ^ 63) else d)"

text \<open>\<open>sys\<close> is \<^verbatim>\<open>memStats.Sys\<close>, read from the runtime when the pool is built.\<close>

definition NewEnhancedPool :: "Config \<Rightarrow> int \<Rightarrow> EnhancedPool" where
  "NewEnhancedPool cfg sys =
     \<lparr> basePool = NewPool cfg,
       memoryLimit = \<lfloor>real_of_int sys * 0.8\<rfloor>,
       currentMemoryUse = 0,
       memoryPressure = False,
       rateLimitWindow =
         \<lparr> windowSize = Hour, limit = APIRateLimitThreshold cfg,
           remaining = APIRateLimitThreshold cfg, resetTime = zeroTime \<rparr>,
       adaptiveRateLimit =
         \<lparr> currentRate = real_of_int (APIRateLimitThreshold cfg) / 3600,
           minRate = 1.0, maxRate = 100.0, adjustmentFactor = 0.1,
           lastAdjustment = zeroTime, backoffMultiplier = 0.5 \<rparr>,
       pauseChan = 0,
       isPaused = False,
       backpressureLimit = MaxConcurrentFetches cfg * 2,
       droppedTasksBuffer = [],
       memoryMonitorStop = False,
       monitorRunning = False,
       flushGoroutines = 0 \<rparr>"

definition EnhancedPool_Start :: "EnhancedPool \<Rightarrow> error option \<times> EnhancedPool" where
  "EnhancedPool_Start ep =
     (case Start (basePool ep) of
        (Some err, p) \<Rightarrow> (Some err, ep\<lparr> basePool := p \<rparr>)
      | (None, p) \<Rightarrow> (None, ep\<lparr> basePool := p, monitorRunning := True \<rparr>))"

definition pauseWorkers :: "EnhancedPool \<Rightarrow> EnhancedPool" where
  "pauseWorkers ep = (if \<not> isPaused ep then ep\<lparr> isPaused := True \<rparr> else ep)"

definition resumeWorkers :: "EnhancedPool \<Rightarrow> EnhancedPool" where
  "resumeWorkers ep =
     (if isPaused ep
      then ep\<lparr> isPaused := False, pauseChan := pauseChan ep + 1,
               flushGoroutines := flushGoroutines ep + 1 \<rparr>
      else ep)"

subsection \<open>Memory monitor\<close>

text \<open>One tick of \<open>monitorMemory\<close>; \<open>alloc\<close> is the sampled \<^verbatim>\<open>memStats.Alloc\<close>.\<close>

definition monitorTick :: "int \<Rightarrow> EnhancedPool \<Rightarrow> EnhancedPool" where
  "monitorTick alloc ep =
     (let ep1 = ep\<lparr> currentMemoryUse := alloc \<rparr>
      in if real_of_int alloc > real_of_int (memoryLimit ep1) * 0.9 then
           (if \<not> memoryPressure ep1 then pauseWorkers (ep1\<lparr> memoryPressure := True \<rparr>) else ep1)
         else if real_of_int alloc < real_of_int (memoryLimit ep1) * 0.7 then
           (if memoryPressure ep1 then resumeWorkers (ep1\<lparr> memoryPressure := False \<rparr>) else ep1)
         else ep1)"

subsection \<open>Adaptive rate limit\<close>

text \<open>
  The quotient of two \<^verbatim>\<open>float64\<close>s: dividing by zero gives an infinity or NaN, and every
  comparison with NaN is false.
\<close>

datatype float64 = Finite real | PosInf | NegInf | NaN

definition fdiv :: "real \<Rightarrow> real \<Rightarrow> float64" where
  "fdiv a b =
     (if b \<noteq> 0 then Finite (a / b) else if a > 0 then PosInf else if a < 0 then NegInf else NaN)"

fun f_gt :: "float64 \<Rightarrow> real \<Rightarrow> bool" where
  "f_gt (Finite x) c = (x > c)"
| "f_gt PosInf c = True"
| "f_gt NegInf c = False"
| "f_gt NaN c = False"

fun f_lt :: "float64 \<Rightarrow> real \<Rightarrow> bool" where
  "f_lt (Finite x) c = (x < c)"
| "f_lt PosInf c = False"
| "f_lt NegInf c = True"
| "f_lt NaN c = False"

text \<open>
  \<open>now\<close> is the clock, read by \<^verbatim>\<open>time.Since\<close> and by \<^verbatim>\<open>time.Now\<close>; the two readings are
  taken as one instant.
\<close>

definition UpdateRateLimitFromHeaders ::
    "int \<Rightarrow> int \<Rightarrow> int \<Rightarrow> int \<Rightarrow> EnhancedPool \<Rightarrow> EnhancedPool" where
  "UpdateRateLimitFromHeaders remaining' limit' resetTime' now ep =
     (let w = (rateLimitWindow ep)\<lparr> remaining := remaining', limit := limit',
                                    resetTime := resetTime' \<rparr>;
          a = adaptiveRateLimit ep;
          usagePercent = fdiv (real_of_int (limit' - remaining')) (real_of_int limit');
          a1 = (if f_gt usagePercent 0.8
                then a\<lparr> currentRate := currentRate a * backoffMultiplier a \<rparr>
                else if f_lt usagePercent 0.5 \<and> time_Since now (lastAdjustment a) > 5 * Minute
                then a\<lparr> currentRate := currentRate a * (1.0 + adjustmentFactor a) \<rparr>
                else a);
          a2 = (if currentRate a1 < minRate a1 then a1\<lparr> currentRate := minRate a1 \<rparr>
                else if currentRate a1 > maxRate a1 then a1\<lparr> currentRate := maxRate a1 \<rparr>
                else a1)
      in ep\<lparr> rateLimitWindow := w, adaptiveRateLimit := a2\<lparr> lastAdjustment := now \<rparr> \<rparr>)"

definition GetCurrentRateLimit :: "EnhancedPool \<Rightarrow> real" where
  "GetCurrentRateLimit ep = currentRate (adaptiveRateLimit ep)"


subsection \<open>Submission with backpressure\<close>

text \<open>
  \<open>SubmitTaskWithBackpressure\<close> blocks in four \<^verbatim>\<open>select\<close>s. What the rest of the program
  does while it waits is a list of events, taken in order at those \<^verbatim>\<open>select\<close>s: a timer of
  the waiting \<^verbatim>\<open>select\<close> fires (\<open>Tick\<close>), the caller's context is done (\<open>CtxDone\<close>), a
  worker takes a step (\<open>Work\<close>), the memory monitor ticks with the given sample
  (\<open>MemTick\<close>). The call returns \<open>None\<close> when the events end while it
  still waits; otherwise it returns its error, the pool and the events left.
\<close>

datatype event = Tick | CtxDone bool | Work nat bool | MemTick int

text \<open>
  The error of a context that is done: its deadline has passed (\<open>True\<close>) or it was
  cancelled (\<open>False\<close>).
\<close>

definition ctx_Err :: "bool \<Rightarrow> error" where
  "ctx_Err deadline = (if deadline then DeadlineExceeded else Canceled)"

fun env_step :: "Env \<Rightarrow> event \<Rightarrow> EnhancedPool \<Rightarrow> EnhancedPool" where
  "env_step env Tick ep = ep"
| "env_step env (CtxDone deadline) ep = ep"
| "env_step env (Work i pick_done) ep = ep\<lparr> basePool := worker_step env i pick_done (basePool ep) \<rparr>"
| "env_step env (MemTick alloc) ep = (if monitorRunning ep then monitorTick alloc ep else ep)"

text \<open>Go's integer division truncates towards zero.\<close>

definition go_div :: "int \<Rightarrow> int \<Rightarrow> int" where
  "go_div a b = sgn a * sgn b * (\<bar>a\<bar> div \<bar>b\<bar>)"

text \<open>
  The places of the function: its entry, the wait for the resume signal on the pause
  channel read there, the wait under memory pressure, the queue depth check, the test and
  the wait of the drain loop, and the final send loop.
\<close>

datatype pc = Entry | WaitResume nat | MemBackoff | CheckDepth | DrainCheck | DrainWait | Send

definition pc_rank :: "pc \<Rightarrow> nat" where
  "pc_rank c = (case c of Entry \<Rightarrow> 6 | WaitResume _ \<Rightarrow> 5 | MemBackoff \<Rightarrow> 4 | CheckDepth \<Rightarrow> 3
                | DrainCheck \<Rightarrow> 2 | DrainWait \<Rightarrow> 1 | Send \<Rightarrow> 0)"

function (sequential) submit ::
    "Env \<Rightarrow> pc \<Rightarrow> event list \<Rightarrow> WorkerTask \<Rightarrow> EnhancedPool
      \<Rightarrow> (error option \<times> EnhancedPool \<times> event list) option" where
  "submit env Entry es task ep =
     (if isPaused ep
      then submit env (WaitResume (pauseChan ep)) es task
             (ep\<lparr> droppedTasksBuffer := droppedTasksBuffer ep @ [task] \<rparr>)
      else if memoryPressure ep then submit env MemBackoff es task ep
      else submit env CheckDepth es task ep)"
| "submit env (WaitResume c) [] task ep = None"
| "submit env (WaitResume c) (CtxDone deadline # es) task ep = Some (Some (ctx_Err deadline), ep, es)"
| "submit env (WaitResume c) (e # es) task ep =
     (let ep' = env_step env e ep
      in if pauseChan ep' \<noteq> c then submit env Entry es task ep'
         else submit env (WaitResume c) es task ep')"
| "submit env MemBackoff [] task ep = None"
| "submit env MemBackoff (CtxDone deadline # es) task ep = Some (Some (ctx_Err deadline), ep, es)"
| "submit env MemBackoff (Tick # es) task ep = submit env CheckDepth es task ep"
| "submit env MemBackoff (e # es) task ep = submit env MemBackoff es task (env_step env e ep)"
| "submit env CheckDepth es task ep =
     (let queueDepth = GetQueueDepth (basePool ep)
      in if queueDepth \<ge> backpressureLimit ep then submit env DrainCheck es task (pauseWorkers ep)
         else submit env Send es task ep)"
| "submit env DrainCheck es task ep =
     (if GetQueueDepth (basePool ep) \<ge> go_div (backpressureLimit ep) 2
      then submit env DrainWait es task ep
      else submit env Send es task (resumeWorkers ep))"
| "submit env DrainWait [] task ep = None"
| "submit env DrainWait (CtxDone deadline # es) task ep = Some (Some (ctx_Err deadline), ep, es)"
| "submit env DrainWait (Tick # es) task ep = submit env DrainCheck es task ep"
| "submit env DrainWait (e # es) task ep = submit env DrainWait es task (env_step env e ep)"
| "submit env Send es task ep =
     (let p = basePool ep;
          room = (int (length (taskChan p)) < MaxConcurrentFetches (config p))
      in if room \<or> taskChanClosed p then
           (case es of
              CtxDone deadline # es' \<Rightarrow> Some (Some (ctx_Err deadline), ep, es')
            | _ \<Rightarrow>
                if taskChanClosed p then Some (Some (Panic ''send on closed channel''), ep, es)
                else Some (None, ep\<lparr> basePool := p\<lparr> taskChan := taskChan p @ [task] \<rparr> \<rparr>, es))
         else
           (case es of
              [] \<Rightarrow> None
            | CtxDone deadline # es' \<Rightarrow> Some (Some (ctx_Err deadline), ep, es')
            | Tick # es' \<Rightarrow> submit env Send es' task ep
            | e # es' \<Rightarrow> submit env Send es' task (env_step env e ep)))"
  by pat_completeness auto
termination
  by (relation "measures [\<lambda>(env, c, es, task, ep). length es, \<lambda>(env, c, es, task, ep). pc_rank c]")
     (auto simp: pc_rank_def)

definition SubmitTaskWithBackpressure ::
    "Env \<Rightarrow> event list \<Rightarrow> WorkerTask \<Rightarrow> EnhancedPool
      \<Rightarrow> (error option \<times> EnhancedPool \<times> event list) option" where
  "SubmitTaskWithBackpressure env es task ep = submit env Entry es task ep"

text \<open>
  \<open>flushBufferedTasks\<close> empties the buffer and submits each task it held again, under a
  context of its own with a timeout of five minutes; an error of a submission is logged
  and the loop goes on.
\<close>

fun flush_loop ::
    "Env \<Rightarrow> event list \<Rightarrow> WorkerTask list \<Rightarrow> EnhancedPool \<Rightarrow> (EnhancedPool \<times> event list) option" where
  "flush_loop env es [] ep = Some (ep, es)"
| "flush_loop env es (task # tasks) ep =
     (case SubmitTaskWithBackpressure env es task ep of
        None \<Rightarrow> None
      | Some (err, ep', es') \<Rightarrow> flush_loop env es' tasks ep')"

definition flushBufferedTasks ::
    "Env \<Rightarrow> event list \<Rightarrow> EnhancedPool \<Rightarrow> (EnhancedPool \<times> event list) option" where
  "flushBufferedTasks env es ep =
     (let tasks = droppedTasksBuffer ep
      in flush_loop env es tasks (ep\<lparr> droppedTasksBuffer := [] \<rparr>))"

text \<open>
  \<open>Stop\<close> of the enhanced pool: stop the monitor, flush the buffer, stop the basic pool.
  \<open>es\<close> are the events during the flush, \<open>steps\<close> the worker steps while the basic pool
  waits for its workers.
\<close>

definition EnhancedPool_Stop ::
    "Env \<Rightarrow> event list \<Rightarrow> (nat \<times> bool) list \<Rightarrow> EnhancedPool \<Rightarrow> (error option \<times> EnhancedPool) option" where
  "EnhancedPool_Stop env es steps ep =
     (if memoryMonitorStop ep then Some (Some (Panic ''close of closed channel''), ep)
      else
        (case flushBufferedTasks env es (ep\<lparr> memoryMonitorStop := True, monitorRunning := False \<rparr>) of
           None \<Rightarrow> None
         | Some (ep', es') \<Rightarrow>
             (case Pool_Stop env steps (basePool ep') of
                (err, p) \<Rightarrow> Some (err, ep'\<lparr> basePool := p \<rparr>))))"

section \<open>The retrying client\<close>

text \<open>
  A \<^verbatim>\<open>time.Duration\<close> is a signed 64-bit count of nanoseconds; \<^verbatim>\<open>backoff *= 2\<close> wraps around.
\<close>

type_synonym Duration = "64 word"

definition GetRetryBackoffBase :: "Config \<Rightarrow> Duration" where
  "GetRetryBackoffBase cfg = word_of_int (RetryBackoffBaseMS cfg) * 1000000"

record Response =
  StatusCode :: int
  Body :: string
  ReadErr :: "error option"

text \<open>
  What the client meets outside: \<open>respAt n\<close> is the outcome of the \<open>n\<close>-th call of
  \<^verbatim>\<open>httpClient.Do\<close> (a transport error or a response), \<open>sleepAt n\<close> the outcome of the
  \<open>n\<close>-th backoff \<^verbatim>\<open>select\<close> (\<open>Some e\<close> when \<^verbatim>\<open>ctx.Done()\<close> wins and \<^verbatim>\<open>ctx.Err()\<close> is \<open>e\<close>,
  \<open>None\<close> when the timer fires), \<open>newRequestErr\<close> the error of \<^verbatim>\<open>http.NewRequestWithContext\<close>
  for a URL, \<open>rateWait\<close> the error of \<^verbatim>\<open>rateLimiter.Wait\<close>; \<open>decodeContent\<close> decodes the JSON
  of a content response into its content and encoding, \<open>base64_Decode\<close> is
  \<^verbatim>\<open>base64.StdEncoding.DecodeString\<close>.
\<close>

record Http =
  respAt :: "nat \<Rightarrow> error + Response"
  sleepAt :: "nat \<Rightarrow> error option"
  newRequestErr :: "string \<Rightarrow> error option"
  rateWait :: "error option"
  decodeContent :: "string \<Rightarrow> error + string \<times> string"
  base64_Decode :: "string \<Rightarrow> error + byte list"

text \<open>
  The trace lists the requests sent and the backoff sleeps completed, each with the URL
  of the call of \<open>makeRequestWithRetry\<close> it belongs to. \<open>content\<close> is the variable the
  handlers of \<open>GetFileContent\<close> write.
\<close>

datatype ev = Sleep string Duration | Request string

record World =
  nreq :: nat
  nsleep :: nat
  trace :: "ev list"
  content :: "byte list"

datatype step = Return "error option" World | Continue error Duration World

text \<open>One iteration of the loop of \<open>makeRequestWithRetry\<close>.\<close>

definition attempt_step ::
    "Http \<Rightarrow> string \<Rightarrow> (Response \<Rightarrow> World \<Rightarrow> error option \<times> World) \<Rightarrow> int \<Rightarrow> Duration \<Rightarrow> World \<Rightarrow> step" where
  "attempt_step h url handler attempt backoff w =
     (case (if attempt > 0 then
              (case sleepAt h (nsleep w) of
                 Some e \<Rightarrow> Inl (e, w\<lparr> nsleep := nsleep w + 1 \<rparr>)
               | None \<Rightarrow> Inr (backoff * 2, w\<lparr> nsleep := nsleep w + 1,
                                              trace := trace w @ [Sleep url backoff] \<rparr>))
            else Inr (backoff, w)) of
        Inl (e, w1) \<Rightarrow> Return (Some e) w1
      | Inr (backoff1, w1) \<Rightarrow>
          (case newRequestErr h url of
             Some e \<Rightarrow> Return (Some (Wrap ''failed to create request: '' e)) w1
           | None \<Rightarrow>
               (let w2 = w1\<lparr> nreq := nreq w1 + 1, trace := trace w1 @ [Request url] \<rparr>
                in case respAt h (nreq w1) of
                     Inl err \<Rightarrow> Continue err backoff1 w2
                   | Inr resp \<Rightarrow>
                       (case handler resp w2 of
                          (None, w3) \<Rightarrow> Return None w3
                        | (Some err, w3) \<Rightarrow>
                            if StatusCode resp \<ge> 500 \<or> StatusCode resp = 429
                            then Continue err backoff1 w3
                            else Return (Some err) w3))))"

function retry_loop ::
    "Http \<Rightarrow> Config \<Rightarrow> string \<Rightarrow> (Response \<Rightarrow> World \<Rightarrow> error option \<times> World) \<Rightarrow> int \<Rightarrow> Duration
      \<Rightarrow> error option \<Rightarrow> World \<Rightarrow> error option \<times> World" where
  "retry_loop h cfg url handler attempt backoff lastErr w =
     (if attempt \<le> RetryMaxAttempts cfg then
        (case attempt_step h url handler attempt backoff w of
           Return r w' \<Rightarrow> (r, w')
         | Continue err backoff' w' \<Rightarrow> retry_loop h cfg url handler (attempt + 1) backoff' (Some err) w')
      else (Some (MaxRetriesExceeded lastErr), w))"
  by pat_completeness auto
termination
  by (relation "measure (\<lambda>(h, cfg, url, handler, attempt, backoff, lastErr, w).
                   nat (RetryMaxAttempts cfg + 1 - attempt))") auto

definition makeRequestWithRetry ::
    "Http \<Rightarrow> Config \<Rightarrow> string \<Rightarrow> (Response \<Rightarrow> World \<Rightarrow> error option \<times> World) \<Rightarrow> World
      \<Rightarrow> error option \<times> World" where
  "makeRequestWithRetry h cfg url handler w =
     retry_loop h cfg url handler 0 (GetRetryBackoffBase cfg) None w"

definition bytes_of :: "string \<Rightarrow> byte list" where
  "bytes_of s = map (\<lambda>c. of_char c) s"

definition apiHandler :: "Http \<Rightarrow> Response \<Rightarrow> World \<Rightarrow> error option \<times> World" where
  "apiHandler h resp w =
     (if StatusCode resp \<noteq> 200 then (Some (APIError (StatusCode resp) (Body resp)), w)
      else
        (case decodeContent h (Body resp) of
           Inl e \<Rightarrow> (Some (Wrap ''failed to decode content response: '' e), w)
         | Inr (c, encoding) \<Rightarrow>
             if encoding = ''base64'' then
               (case base64_Decode h c of
                  Inl e \<Rightarrow> (Some (Wrap ''failed to decode base64 content: '' e), w)
                | Inr decoded \<Rightarrow> (None, w\<lparr> content := decoded \<rparr>))
             else (None, w\<lparr> content := bytes_of c \<rparr>)))"

definition getFileContentViaAPI ::
    "Http \<Rightarrow> Config \<Rightarrow> string \<Rightarrow> string \<Rightarrow> string \<Rightarrow> string \<Rightarrow> World \<Rightarrow> error option \<times> World" where
  "getFileContentViaAPI h cfg owner repo path ref w =
     makeRequestWithRetry h cfg
       (GitHubBaseURL cfg @ ''/repos/'' @ owner @ ''/'' @ repo @ ''/contents/'' @ path @ ''?ref='' @ ref)
       (apiHandler h) w"

definition rawHandler ::
    "Http \<Rightarrow> Config \<Rightarrow> string \<Rightarrow> string \<Rightarrow> string \<Rightarrow> string \<Rightarrow> Response \<Rightarrow> World
      \<Rightarrow> error option \<times> World" where
  "rawHandler h cfg owner repo path ref resp w =
     (if StatusCode resp = 200 then (ReadErr resp, w\<lparr> content := bytes_of (Body resp) \<rparr>)
      else getFileContentViaAPI h cfg owner repo path ref w)"


text \<open>
  The events a call of \<open>makeRequestWithRetry\<close> can log under its URL, in order: a request,
  then for each retry a sleep and a request, the first sleep \<open>b\<close> long and each next one
  twice the one before.
\<close>

fun retries :: "string \<Rightarrow> nat \<Rightarrow> Duration \<Rightarrow> ev list" where
  "retries url 0 b = []"
| "retries url (Suc n) b = Sleep url b # Request url # retries url n (b * 2)"

definition schedule :: "Config \<Rightarrow> string \<Rightarrow> ev list" where
  "schedule cfg url = Request url # retries url (nat (RetryMaxAttempts cfg)) (GetRetryBackoffBase cfg)"

fun ev_url :: "ev \<Rightarrow> string" where
  "ev_url (Sleep url d) = url"
| "ev_url (Request url) = url"

definition own :: "string \<Rightarrow> ev list \<Rightarrow> ev list" where
  "own url es = filter (\<lambda>e. ev_url e = url) es"


section \<open>The default configuration\<close>

text \<open>The values \<open>Load\<close> gives when no variable of the environment is set.\<close>

definition defaultExtensions :: "string list" where
  "defaultExtensions =
     [''.go'', ''.js'', ''.ts'', ''.jsx'', ''.tsx'', ''.py'', ''.java'', ''.cpp'',
      ''.c'', ''.h'', ''.hpp'', ''.cs'', ''.rb'', ''.php'', ''.rs'', ''.swift'',
      ''.kt'', ''.scala'', ''.sh'', ''.bash'', ''.zsh'', ''.fish'', ''.ps1'', ''.bat'',
      ''.cmd'', ''.yaml'', ''.yml'', ''.json'', ''.xml'', ''.toml'', ''.ini'', ''.cfg'',
      ''.conf'', ''.md'', ''.rst'', ''.txt'', ''.sql'', ''.r'', ''.m'', ''.pl'',
      ''.lua'', ''.vim'', ''.el'', ''.clj'', ''.hs'', ''.fs'', ''.ml'', ''.pas'',
      ''.ada'', ''.cob'', ''.f90'', ''.pro'', ''.asm'', ''.s'', ''.lisp'', ''.scm'',
      ''.tcl'', ''.awk'', ''.sed'', ''.dockerfile'', ''.makefile'', ''.cmake'',
      ''.gradle'', ''.maven'', ''.sbt'', ''.cabal'', ''.stack'', ''.cargo'',
      ''.gemfile'', ''.requirements'', ''.setup'', ''.pipfile'', ''.poetry'', ''.pom'',
      ''.build'', ''.project'', ''.solution'']"

definition defaultConfig :: Config where
  "defaultConfig =
     \<lparr> GitHubBaseURL = ''https://api.github.com'',
       MaxWorkers = 50,
       APIRateLimitThreshold = 100,
       FetchTimeoutMS = 30000,
       RetryMaxAttempts = 3,
       RetryBackoffBaseMS = 1000,
       MaxFileSize = 10 * 1024 * 1024,
       MaxConcurrentFetches = 100,
       MemoryLimitPercent = 0.8,
       EnableMemoryMonitor = True,
       BackpressureThreshold = 0.8,
       TaskBufferSize = 1000,
       EnableAdaptiveRateLimit = True,
       RateLimitMinRate = 1.0,
       RateLimitMaxRate = 50.0,
       RateLimitAdjustFactor = 0.1,
       AllowedExtensions = defaultExtensions,
       EnableBinaryDetection = True \<rparr>"

section \<open>The claims in the specification's words, and test data\<close>

text \<open>
  The binary rule as the specification words it: within the first 8 KiB some byte is
  \<open>0x00\<close>, or more than 30 percent of the inspected bytes lie outside
  \<open>{0x09, 0x0A, 0x0D} \<union> [0x20, 0x7E]\<close>.
\<close>

definition spec_nonText :: "byte \<Rightarrow> bool" where
  "spec_nonText b = (b \<notin> {0x09, 0x0A, 0x0D} \<and> \<not> (0x20 \<le> b \<and> b \<le> 0x7E))"

definition spec_IsBinaryContent :: "byte list \<Rightarrow> bool" where
  "spec_IsBinaryContent bs =
     (let inspected = take 8192 bs
      in list_ex (\<lambda>b. b = 0x00) inspected \<or>
         real (length (filter spec_nonText inspected)) > 0.3 * real (length inspected))"

text \<open>A fetch that returns the text \<open>hi\<close> and a newline, and a task of a given size.\<close>

definition textEnv :: Env where
  "textEnv = \<lparr> GetFileContent = (\<lambda>task. Inr [104, 105, 10]), utf8_Valid = (\<lambda>bs. True) \<rparr>"

definition bigTask :: "int \<Rightarrow> WorkerTask" where
  "bigTask n = \<lparr> Path = ''big.bin'', SHA = ''abc123'', Size = n, Owner = ''owner'',
                 Repo = ''repo'', Ref = ''main'' \<rparr>"


text \<open>
  A sequence of observations, each with the remaining count, the limit, the reset time
  and the clock; and the default configuration with another hourly quota.
\<close>

fun observations :: "(int \<times> int \<times> int \<times> int) list \<Rightarrow> EnhancedPool \<Rightarrow> EnhancedPool" where
  "observations [] ep = ep"
| "observations ((remaining', limit', resetTime', now) # os) ep =
     observations os (UpdateRateLimitFromHeaders remaining' limit' resetTime' now ep)"


text \<open>
  How \<open>Load\<close> stores an allowed extension: lower case, trimmed, with a leading dot. And
  the configuration of the pool's tests, with three allowed extensions.
\<close>

definition isSpace :: "char \<Rightarrow> bool" where
  "isSpace c = (c \<in> set [CHR 0x09, CHR 0x0A, CHR 0x0B, CHR 0x0C, CHR 0x0D, CHR '' ''])"

definition TrimSpace :: "string \<Rightarrow> string" where
  "TrimSpace s = rev (dropWhile isSpace (rev (dropWhile isSpace s)))"

definition loadExtension :: "string \<Rightarrow> string" where
  "loadExtension ext =
     (let e = TrimSpace (ToLower ext)
      in if \<not> (e \<noteq> [] \<and> hd e = CHR ''.'') then CHR ''.'' # e else e)"


text \<open>
  Auxiliary notions for the retry loop. A handler is framed for a URL when it logs
  nothing under that URL. \<open>first_events\<close> is what one iteration logs when it runs to its
  request, \<open>remaining_events\<close> what the iterations from a given attempt on can log, and
  \<open>before_handler\<close> the state in which an iteration calls the handler.
\<close>

definition frame :: "string \<Rightarrow> (Response \<Rightarrow> World \<Rightarrow> error option \<times> World) \<Rightarrow> bool" where
  "frame url handler = (\<forall>resp w. own url (trace (snd (handler resp w))) = own url (trace w))"



definition before_handler :: "string \<Rightarrow> int \<Rightarrow> Duration \<Rightarrow> World \<Rightarrow> World" where
  "before_handler url attempt backoff w =
     (if attempt > 0
      then w\<lparr> nsleep := nsleep w + 1, nreq := nreq w + 1,
              trace := trace w @ [Sleep url backoff, Request url] \<rparr>
      else w\<lparr> nreq := nreq w + 1, trace := trace w @ [Request url] \<rparr>)"










text \<open>
  Notions for the stop of the enhanced pool: an event that is a worker step; the results
  held by the workers that wait to send them; and a pool all of whose results come from a
  set of results or are what \<open>processTask\<close> gives for a task of a set of tasks that
  holds every task on the channel and in the buffer.
\<close>

fun is_work :: "event \<Rightarrow> bool" where
  "is_work (Work i pick_done) = True"
| "is_work Tick = False"
| "is_work (CtxDone deadline) = False"
| "is_work (MemTick alloc) = False"

definition no_work :: "event list \<Rightarrow> bool" where
  "no_work es = list_all (\<lambda>e. \<not> is_work e) es"

definition inflight :: "Pool \<Rightarrow> FileResult set" where
  "inflight p = {r. AtSend r \<in> set (workers p)}"

definition accounted :: "Env \<Rightarrow> Config \<Rightarrow> FileResult set \<Rightarrow> WorkerTask set \<Rightarrow> EnhancedPool \<Rightarrow> bool" where
  "accounted env cfg R T ep =
     (config (basePool ep) = cfg \<and>
      set (taskChan (basePool ep)) \<subseteq> T \<and>
      set (droppedTasksBuffer ep) \<subseteq> T \<and>
      set (resultChan (basePool ep)) \<union> inflight (basePool ep)
        \<subseteq> R \<union> (\<lambda>t. fst (processTask env cfg t)) ` T)"

text \<open>
  Test data for the pool: a task as in the pool's tests; a configuration with one worker
  and a channel of ten; a helper that submits tasks one after another, each returning at
  once; the pool with \<open>n\<close> tasks on its channel; the started pool, with one task queued,
  and paused by the memory monitor with one task buffered; and the last two after \<open>Stop\<close>.
\<close>

definition goTask :: WorkerTask where
  "goTask = \<lparr> Path = ''test.go'', SHA = ''abc123'', Size = 100, Owner = ''owner'',
              Repo = ''repo'', Ref = ''main'' \<rparr>"

definition smallConfig :: Config where
  "smallConfig = defaultConfig\<lparr> MaxWorkers := 1, MaxConcurrentFetches := 10 \<rparr>"

fun submit_each :: "Env \<Rightarrow> WorkerTask list \<Rightarrow> EnhancedPool \<Rightarrow> EnhancedPool option" where
  "submit_each env [] ep = Some ep"
| "submit_each env (task # tasks) ep =
     (case SubmitTaskWithBackpressure env [] task ep of
        Some (None, ep', es) \<Rightarrow> submit_each env tasks ep'
      | _ \<Rightarrow> None)"

definition queued :: "nat \<Rightarrow> EnhancedPool" where
  "queued n = (NewEnhancedPool smallConfig 1000)
                \<lparr> basePool := (NewPool smallConfig)\<lparr> taskChan := replicate n goTask \<rparr> \<rparr>"

definition started :: EnhancedPool where
  "started = snd (EnhancedPool_Start (NewEnhancedPool smallConfig 1000))"

definition started_queued :: EnhancedPool where
  "started_queued = started\<lparr> basePool := (basePool started)\<lparr> taskChan := [goTask] \<rparr> \<rparr>"

definition paused_buffered :: EnhancedPool where
  "paused_buffered = (monitorTick 750 started)\<lparr> droppedTasksBuffer := [goTask] \<rparr>"

definition stopped_queued :: EnhancedPool where
  "stopped_queued =
     started_queued\<lparr> memoryMonitorStop := True, monitorRunning := False,
       basePool := (basePool started_queued)\<lparr> cancelled := True, taskChanClosed := True,
          workers := [Exited], resultChanClosed := True, activeWorkers := 0, workerPoolSize := 0 \<rparr> \<rparr>"

definition stopped_buffered :: EnhancedPool where
  "stopped_buffered =
     paused_buffered\<lparr> memoryMonitorStop := True, monitorRunning := False,
       basePool := (basePool paused_buffered)\<lparr> cancelled := True, taskChanClosed := True,
          workers := [Exited], resultChanClosed := True, activeWorkers := 0, workerPoolSize := 0 \<rparr> \<rparr>"

section \<open>Verified properties\<close>

subsection \<open>Start on a running pool\<close>

text \<open>
  Claim C10. \<open>Start\<close> on a pool that already has active workers returns the error whose
  message is \<open>worker pool is already running\<close> and leaves the pool as it was: no worker
  is added and the count of active workers keeps its value.
\<close>

theorem Start_already_running:
  "activeWorkers p > 0 \<Longrightarrow>
     Start p = (Some AlreadyRunning, p) \<and>
     error_message AlreadyRunning = ''worker pool is already running'' \<and>
     workers (snd (Start p)) = workers p \<and>
     activeWorkers (snd (Start p)) = activeWorkers p"
  by (simp add: Start_def)

theorem Start_already_running_witness:
  "activeWorkers (snd (Start (NewPool defaultConfig))) > 0 \<and>
   Start (snd (Start (NewPool defaultConfig))) =
     (Some AlreadyRunning, snd (Start (NewPool defaultConfig))) \<and>
   length (workers (snd (Start (snd (Start (NewPool defaultConfig)))))) = 50 \<and>
   activeWorkers (snd (Start (snd (Start (NewPool defaultConfig))))) = 50"
proof -
  have h: "activeWorkers (snd (Start (NewPool defaultConfig))) > 0"
    by code_simp
  have l: "length (workers (snd (Start (NewPool defaultConfig)))) = 50"
    by code_simp
  have a: "activeWorkers (snd (Start (NewPool defaultConfig))) = 50"
    by code_simp
  from Start_already_running [OF h] h l a show ?thesis by simp
qed

subsection \<open>The size check\<close>

text \<open>
  Claim C7. A task whose declared size is at most \<open>MaxFileSize\<close> passes the size check:
  the fetch is called for it, and text that the fetch returns becomes the result. A task
  whose declared size is above \<open>MaxFileSize\<close> yields the oversize failure and no fetch is
  called.
\<close>

theorem processTask_size_check:
  "(Size task \<le> MaxFileSize cfg \<longrightarrow>
      snd (processTask env cfg task) = [task] \<and>
      (\<forall>bs. GetFileContent env task = Inr bs \<and> \<not> IsBinaryContent bs \<and>
             utf8_Valid env bs \<longrightarrow>
         resError (fst (processTask env cfg task)) = None \<and>
         resContent (fst (processTask env cfg task)) = bs)) \<and>
   (Size task > MaxFileSize cfg \<longrightarrow>
      processTask env cfg task =
        (\<lparr> resPath = Path task, resContent = [], resSHA = SHA task, resSize = Size task,
           resError = Some (FileTooLarge (Size task) (MaxFileSize cfg)) \<rparr>, []))"
  by (auto simp: processTask_def Let_def split: sum.splits)

theorem processTask_size_check_witness:
  "Size (bigTask 10485760) \<le> MaxFileSize defaultConfig \<and>
   snd (processTask textEnv defaultConfig (bigTask 10485760)) = [bigTask 10485760] \<and>
   resError (fst (processTask textEnv defaultConfig (bigTask 10485760))) = None \<and>
   Size (bigTask 10485761) > MaxFileSize defaultConfig \<and>
   snd (processTask textEnv defaultConfig (bigTask 10485761)) = [] \<and>
   resError (fst (processTask textEnv defaultConfig (bigTask 10485761))) =
     Some (FileTooLarge 10485761 10485760) \<and>
   error_message (FileTooLarge 200 100) = ''file size 200 exceeds limit 100''"
proof -
  have le: "Size (bigTask 10485760) \<le> MaxFileSize defaultConfig"
    by (simp add: bigTask_def defaultConfig_def)
  have gt: "Size (bigTask 10485761) > MaxFileSize defaultConfig"
    by (simp add: bigTask_def defaultConfig_def)
  have g: "GetFileContent textEnv (bigTask 10485760) = Inr [104, 105, 10] \<and>
           \<not> IsBinaryContent [104, 105, 10] \<and> utf8_Valid textEnv [104, 105, 10]"
    by (simp add: textEnv_def IsBinaryContent_def nonPrintable_def)
  have m: "error_message (FileTooLarge 200 100) = ''file size 200 exceeds limit 100''"
    by (simp add: show_int_def digit_char_def)
  have s: "Size (bigTask 10485761) = 10485761" "MaxFileSize defaultConfig = 10485760"
    by (simp_all add: bigTask_def defaultConfig_def)
  from processTask_size_check [of "bigTask 10485760" defaultConfig textEnv]
       processTask_size_check [of "bigTask 10485761" defaultConfig textEnv] le gt g m s
  show ?thesis by simp
qed

subsection \<open>Binary detection\<close>

lemma nonPrintable_iff: "nonPrintable b \<longleftrightarrow> b \<notin> {9..13} \<union> {32..126}"
  unfolding nonPrintable_def by (auto simp: word_less_nat_alt word_le_nat_alt)

lemma ratio_nat: "(3 * real a < 10 * real b) = (3 * a < 10 * b)"
proof -
  have "(real (3 * a) < real (10 * b)) = (3 * a < 10 * b)" by (rule of_nat_less_iff)
  then show ?thesis by simp
qed

text \<open>
  What the code decides: binary when the first 8 KiB hold a zero byte or when more than
  three tenths of them lie outside \<open>{9..13} \<union> {32..126}\<close>.
\<close>

lemma IsBinaryContent_iff:
  "IsBinaryContent bs \<longleftrightarrow>
     list_ex (\<lambda>b. b = 0) (take 8192 bs) \<or>
     10 * length (filter nonPrintable (take 8192 bs)) > 3 * length (take 8192 bs)"
proof (cases "bs = []")
  case True
  then show ?thesis by (simp add: IsBinaryContent_def)
next
  case False
  have t: "(if length bs < 8192 then length bs else 8192) = min (length bs) 8192" by simp
  have "take (min (length bs) 8192) bs = take 8192 bs" by (simp add: min_def)
  moreover have "0 < length (take 8192 bs)" using False by simp
  ultimately show ?thesis
    using False unfolding IsBinaryContent_def Let_def t
    by (simp add: field_simps ratio_nat del: length_take take_eq_Nil)
qed

lemma IsBinaryContent_thirty_percent:
  "\<not> list_ex (\<lambda>b. b = 0) (take 8192 bs) \<Longrightarrow>
   10 * length (filter nonPrintable (take 8192 bs)) = 3 * length (take 8192 bs) \<Longrightarrow>
   \<not> IsBinaryContent bs"
  by (simp add: IsBinaryContent_iff)

lemma processTask_binary:
  "Size task \<le> MaxFileSize cfg \<Longrightarrow> GetFileContent env task = Inr bs \<Longrightarrow>
   EnableBinaryDetection cfg \<Longrightarrow> IsBinaryContent bs \<Longrightarrow>
   resError (fst (processTask env cfg task)) = Some BinarySkipped"
  by (simp add: processTask_def)

text \<open>
  Claim C6. The content filter classifies a byte sequence as binary exactly when, within
  the first 8 KiB, some byte is \<open>0x00\<close> or more than 30 percent of the bytes lie outside
  \<open>{0x09, 0x0A, 0x0D} \<union> [0x20, 0x7E]\<close>. The code differs on the bytes \<open>0x0B\<close> and
  \<open>0x0C\<close>: the content that is the single byte \<open>0x0B\<close> lies wholly outside that set, and
  the code does not classify it as binary.
\<close>

theorem IsBinaryContent_vertical_tab:
  "IsBinaryContent [0x0B] = False \<and> spec_IsBinaryContent [0x0B] = True"
  by (simp add: IsBinaryContent_def nonPrintable_def spec_IsBinaryContent_def spec_nonText_def)

subsection \<open>The memory monitor\<close>

text \<open>
  Claim C9. On a tick of the memory monitor the pressure flag goes from false to true
  only when the sample exceeds 0.9 of the ceiling, and that tick pauses the workers; it
  goes from true to false only when the sample is below 0.7 of the ceiling, and that
  tick resumes the workers; both transitions happen when their condition holds, and on
  every other tick only the sample is stored.
\<close>

theorem monitorTick_hysteresis:
  "(\<not> memoryPressure ep \<and> memoryPressure (monitorTick alloc ep) \<longrightarrow>
      real_of_int alloc > 0.9 * real_of_int (memoryLimit ep) \<and>
      monitorTick alloc ep =
        pauseWorkers (ep\<lparr> currentMemoryUse := alloc, memoryPressure := True \<rparr>) \<and>
      isPaused (monitorTick alloc ep)) \<and>
   (memoryPressure ep \<and> \<not> memoryPressure (monitorTick alloc ep) \<longrightarrow>
      real_of_int alloc < 0.7 * real_of_int (memoryLimit ep) \<and>
      monitorTick alloc ep =
        resumeWorkers (ep\<lparr> currentMemoryUse := alloc, memoryPressure := False \<rparr>) \<and>
      \<not> isPaused (monitorTick alloc ep)) \<and>
   (\<not> memoryPressure ep \<and> real_of_int alloc > 0.9 * real_of_int (memoryLimit ep) \<longrightarrow>
      memoryPressure (monitorTick alloc ep)) \<and>
   (memoryPressure ep \<and> real_of_int alloc < 0.7 * real_of_int (memoryLimit ep) \<and>
    \<not> real_of_int alloc > 0.9 * real_of_int (memoryLimit ep) \<longrightarrow>
      \<not> memoryPressure (monitorTick alloc ep)) \<and>
   (\<not> (\<not> memoryPressure ep \<and> real_of_int alloc > 0.9 * real_of_int (memoryLimit ep)) \<and>
    \<not> (memoryPressure ep \<and> real_of_int alloc < 0.7 * real_of_int (memoryLimit ep) \<and>
       \<not> real_of_int alloc > 0.9 * real_of_int (memoryLimit ep)) \<longrightarrow>
      monitorTick alloc ep = ep\<lparr> currentMemoryUse := alloc \<rparr>)"
  by (auto simp: monitorTick_def pauseWorkers_def resumeWorkers_def Let_def)

lemma New1000:
  "memoryLimit (NewEnhancedPool defaultConfig 1000) = 800"
  "\<not> memoryPressure (NewEnhancedPool defaultConfig 1000)"
  "\<not> isPaused (NewEnhancedPool defaultConfig 1000)"
  by (simp_all add: NewEnhancedPool_def)

lemma tick750_limit:
  "memoryLimit (monitorTick 750 (NewEnhancedPool defaultConfig 1000)) = 800"
  by (simp add: monitorTick_def New1000 pauseWorkers_def Let_def)

theorem monitorTick_hysteresis_witness:
  "\<not> memoryPressure (NewEnhancedPool defaultConfig 1000) \<and>
   real_of_int 750 > 0.9 * real_of_int (memoryLimit (NewEnhancedPool defaultConfig 1000)) \<and>
   memoryPressure (monitorTick 750 (NewEnhancedPool defaultConfig 1000)) \<and>
   isPaused (monitorTick 750 (NewEnhancedPool defaultConfig 1000)) \<and>
   real_of_int 500 < 0.7 * real_of_int (memoryLimit (monitorTick 750 (NewEnhancedPool defaultConfig 1000))) \<and>
   \<not> memoryPressure (monitorTick 500 (monitorTick 750 (NewEnhancedPool defaultConfig 1000))) \<and>
   \<not> isPaused (monitorTick 500 (monitorTick 750 (NewEnhancedPool defaultConfig 1000))) \<and>
   monitorTick 600 (monitorTick 750 (NewEnhancedPool defaultConfig 1000)) =
     (monitorTick 750 (NewEnhancedPool defaultConfig 1000))\<lparr> currentMemoryUse := 600 \<rparr>"
proof -
  let ?e0 = "NewEnhancedPool defaultConfig 1000"
  let ?e1 = "monitorTick 750 ?e0"
  note H0 = monitorTick_hysteresis [of ?e0 750]
  note H1 = monitorTick_hysteresis [of ?e1 500]
  note H2 = monitorTick_hysteresis [of ?e1 600]
  have a1: "\<not> memoryPressure ?e0" by (simp add: New1000)
  have a2: "real_of_int 750 > 0.9 * real_of_int (memoryLimit ?e0)" by (simp add: New1000)
  have p1: "memoryPressure ?e1"
    by (rule H0 [THEN conjunct2, THEN conjunct2, THEN conjunct1, THEN mp]) (intro conjI a1 a2)
  have q1: "isPaused ?e1"
    using H0 [THEN conjunct1, THEN mp, OF conjI, OF a1 p1] by (elim conjE)
  have b2: "real_of_int 500 < 0.7 * real_of_int (memoryLimit ?e1)" by (simp add: tick750_limit)
  have b3: "\<not> real_of_int 500 > 0.9 * real_of_int (memoryLimit ?e1)" by (simp add: tick750_limit)
  have p2: "\<not> memoryPressure (monitorTick 500 ?e1)"
    by (rule H1 [THEN conjunct2, THEN conjunct2, THEN conjunct2, THEN conjunct1, THEN mp])
       (intro conjI p1 b2 b3)
  have q2: "\<not> isPaused (monitorTick 500 ?e1)"
    using H1 [THEN conjunct2, THEN conjunct1, THEN mp, OF conjI, OF p1 p2] by (elim conjE)
  have c: "\<not> real_of_int 600 > 0.9 * real_of_int (memoryLimit ?e1)"
          "\<not> real_of_int 600 < 0.7 * real_of_int (memoryLimit ?e1)"
    by (simp_all add: tick750_limit)
  have c': "\<not> (\<not> memoryPressure ?e1 \<and> real_of_int 600 > 0.9 * real_of_int (memoryLimit ?e1)) \<and>
            \<not> (memoryPressure ?e1 \<and> real_of_int 600 < 0.7 * real_of_int (memoryLimit ?e1) \<and>
               \<not> real_of_int 600 > 0.9 * real_of_int (memoryLimit ?e1))"
    using c by blast
  have p3: "monitorTick 600 ?e1 = ?e1\<lparr> currentMemoryUse := 600 \<rparr>"
    by (rule H2 [THEN conjunct2, THEN conjunct2, THEN conjunct2, THEN conjunct2, THEN mp]) (rule c')
  from a1 a2 p1 q1 b2 p2 q2 p3 show ?thesis by (intro conjI)
qed

subsection \<open>The adaptive rate limit\<close>

lemma Update_fields:
  "minRate (adaptiveRateLimit (UpdateRateLimitFromHeaders rm lm rs now ep)) = minRate (adaptiveRateLimit ep)"
  "maxRate (adaptiveRateLimit (UpdateRateLimitFromHeaders rm lm rs now ep)) = maxRate (adaptiveRateLimit ep)"
  "adjustmentFactor (adaptiveRateLimit (UpdateRateLimitFromHeaders rm lm rs now ep)) = adjustmentFactor (adaptiveRateLimit ep)"
  "backoffMultiplier (adaptiveRateLimit (UpdateRateLimitFromHeaders rm lm rs now ep)) = backoffMultiplier (adaptiveRateLimit ep)"
  by (simp_all add: UpdateRateLimitFromHeaders_def Let_def)


lemma New_fields:
  "minRate (adaptiveRateLimit (NewEnhancedPool cfg sys)) = 1"
  "maxRate (adaptiveRateLimit (NewEnhancedPool cfg sys)) = 100"
  "adjustmentFactor (adaptiveRateLimit (NewEnhancedPool cfg sys)) = 0.1"
  "backoffMultiplier (adaptiveRateLimit (NewEnhancedPool cfg sys)) = 0.5"
  "currentRate (adaptiveRateLimit (NewEnhancedPool cfg sys)) = real_of_int (APIRateLimitThreshold cfg) / 3600"
  "lastAdjustment (adaptiveRateLimit (NewEnhancedPool cfg sys)) = zeroTime"
  by (simp_all add: NewEnhancedPool_def)





text \<open>
  Claim C5. In every state of the adaptive rate limiter reachable from construction the
  rate lies between the minimum and the maximum rate. The state built from the default
  configuration has the rate \<open>100 / 3600\<close>, below the minimum of 1.
\<close>

theorem rate_initial_below_min:
  "GetCurrentRateLimit (NewEnhancedPool defaultConfig sys) = 1 / 36 \<and>
   minRate (adaptiveRateLimit (NewEnhancedPool defaultConfig sys)) = 1 \<and>
   \<not> minRate (adaptiveRateLimit (NewEnhancedPool defaultConfig sys))
       \<le> GetCurrentRateLimit (NewEnhancedPool defaultConfig sys)"
  by (simp add: New_fields GetCurrentRateLimit_def defaultConfig_def)

text \<open>After one observation or more the rate lies within the bounds.\<close>

lemma Update_bounds:
  "minRate (adaptiveRateLimit ep) \<le> maxRate (adaptiveRateLimit ep) \<Longrightarrow>
   minRate (adaptiveRateLimit ep) \<le> GetCurrentRateLimit (UpdateRateLimitFromHeaders rm lm rs now ep) \<and>
   GetCurrentRateLimit (UpdateRateLimitFromHeaders rm lm rs now ep) \<le> maxRate (adaptiveRateLimit ep)"
  by (simp add: UpdateRateLimitFromHeaders_def GetCurrentRateLimit_def Let_def)

lemma observations_bounds:
  "os \<noteq> [] \<Longrightarrow> minRate (adaptiveRateLimit ep) \<le> maxRate (adaptiveRateLimit ep) \<Longrightarrow>
   minRate (adaptiveRateLimit ep) \<le> GetCurrentRateLimit (observations os ep) \<and>
   GetCurrentRateLimit (observations os ep) \<le> maxRate (adaptiveRateLimit ep)"
proof (induction os ep rule: observations.induct)
  case (1 ep)
  then show ?case by simp
next
  case (2 rm lm rs now os ep)
  show ?case
  proof (cases "os = []")
    case True
    then show ?thesis using Update_bounds [OF "2.prems"(2)] by simp
  next
    case False
    then show ?thesis using "2.IH" "2.prems"(2) by (simp add: Update_fields)
  qed
qed

lemma rate_bounds_after_observation:
  "os \<noteq> [] \<Longrightarrow>
   1 \<le> GetCurrentRateLimit (observations os (NewEnhancedPool cfg sys)) \<and>
   GetCurrentRateLimit (observations os (NewEnhancedPool cfg sys)) \<le> 100"
  using observations_bounds [of os "NewEnhancedPool cfg sys"] by (simp add: New_fields)

subsection \<open>The file filter at enumeration time\<close>

lemma toLower_char_idem: "toLower_char (toLower_char c) = toLower_char c"
  by (simp add: toLower_char_def Let_def)

lemma lower_subset:
  "list_all (\<lambda>c. toLower_char c = c) s \<Longrightarrow> set t \<subseteq> set s \<Longrightarrow> ToLower t = t"
  by (auto simp: ToLower_def list_all_iff intro!: map_idI)

text \<open>Every extension that \<open>Load\<close> stores is in lower case.\<close>

lemma loadExtension_lower: "ToLower (loadExtension ext) = loadExtension ext"
proof -
  have a: "list_all (\<lambda>c. toLower_char c = c) (CHR ''.'' # ToLower ext)"
    by (simp add: list_all_iff ToLower_def toLower_char_idem) (simp add: toLower_char_def)
  have "set (TrimSpace (ToLower ext)) \<subseteq> set (ToLower ext)"
  proof
    fix x assume "x \<in> set (TrimSpace (ToLower ext))"
    then have "x \<in> set (dropWhile isSpace (rev (dropWhile isSpace (ToLower ext))))"
      by (simp add: TrimSpace_def)
    then have "x \<in> set (rev (dropWhile isSpace (ToLower ext)))" by (rule set_dropWhileD)
    then have "x \<in> set (dropWhile isSpace (ToLower ext))" by simp
    then show "x \<in> set (ToLower ext)" by (rule set_dropWhileD)
  qed
  then have "set (loadExtension ext) \<subseteq> set (CHR ''.'' # ToLower ext)"
    by (auto simp: loadExtension_def Let_def)
  with a show ?thesis by (rule lower_subset)
qed




subsection \<open>The retry loop of the client\<close>

lemma frameD: "frame url handler \<Longrightarrow> handler resp w = (r, w') \<Longrightarrow> own url (trace w') = own url (trace w)"
  unfolding frame_def by (metis snd_conv)

lemma own_simps [simp]:
  "own url (xs @ ys) = own url xs @ own url ys"
  "own url [] = []"
  "own url (Request url # xs) = Request url # own url xs"
  "own url (Sleep url d # xs) = Sleep url d # own url xs"
  by (simp_all add: own_def)












lemma retry_loop_success:
  assumes "attempt \<le> RetryMaxAttempts cfg"
    and "attempt > 0 \<longrightarrow> sleepAt h (nsleep w) = None"
    and "newRequestErr h url = None"
    and "respAt h (nreq w) = Inr resp"
    and "fst (handler resp (before_handler url attempt backoff w)) = None"
  shows "retry_loop h cfg url handler attempt backoff lastErr w =
           handler resp (before_handler url attempt backoff w)"
  using assms
  by (subst retry_loop.simps)
     (auto simp: attempt_step_def before_handler_def Let_def split: option.splits prod.splits)




lemma retry_loop_other_url:
  "frame url handler \<Longrightarrow> url' \<noteq> url \<Longrightarrow>
   own url (trace (snd (retry_loop h cfg url' handler attempt backoff lastErr w))) = own url (trace w)"
proof (induction h cfg url' handler attempt backoff lastErr w rule: retry_loop.induct)
  case (1 h cfg url' handler attempt backoff lastErr w)
  note fr = frameD [OF "1.prems"(1)]
  show ?case
  proof (cases "attempt \<le> RetryMaxAttempts cfg")
    case False
    then show ?thesis by (subst retry_loop.simps) simp
  next
    case True
    show ?thesis
    proof (cases "attempt_step h url' handler attempt backoff w")
      case (Return r w')
      then have "own url (trace w') = own url (trace w)"
        using fr "1.prems"(2)
        by (fastforce simp: attempt_step_def own_def Let_def
              split: option.splits sum.splits prod.splits if_splits)
      with Return True show ?thesis by (subst retry_loop.simps) simp
    next
      case (Continue err b' w')
      then have "own url (trace w') = own url (trace w)"
        using fr "1.prems"(2)
        by (fastforce simp: attempt_step_def own_def Let_def
              split: option.splits sum.splits prod.splits if_splits)
      with "1.IH" [OF True Continue "1.prems"] Continue True show ?thesis
        by (subst retry_loop.simps) simp
    qed
  qed
qed

lemma apiHandler_frame: "frame url (apiHandler h)"
  by (simp add: frame_def apiHandler_def split: sum.splits prod.splits)

lemma rawHandler_frame:
  assumes "GitHubBaseURL cfg @ ''/repos/'' @ owner @ ''/'' @ repo @ ''/contents/'' @ path @ ''?ref='' @ ref \<noteq> url"
  shows "frame url (rawHandler h cfg owner repo path ref)"
  unfolding frame_def rawHandler_def getFileContentViaAPI_def makeRequestWithRetry_def
  using retry_loop_other_url [OF apiHandler_frame assms] by simp





subsection \<open>Submission with backpressure and stop\<close>

lemma pause_resume_base [simp]:
  "basePool (pauseWorkers ep) = basePool ep"
  "basePool (resumeWorkers ep) = basePool ep"
  "basePool (monitorTick alloc ep) = basePool ep"
  by (simp_all add: pauseWorkers_def resumeWorkers_def monitorTick_def Let_def)

lemma env_step_base: "\<not> is_work e \<Longrightarrow> basePool (env_step env e ep) = basePool ep"
  by (cases e) simp_all

lemma ctx_Err_not_full [simp]: "ctx_Err d \<noteq> QueueFull" "QueueFull \<noteq> ctx_Err d"
  by (simp_all add: ctx_Err_def)

declare submit.simps [simp del]

lemmas submit_cases = submit.induct [case_names entry resume_stuck resume_done resume_tick resume_work resume_mem backoff_stuck backoff_done backoff_tick backoff_work backoff_mem check_depth drain_check drain_stuck drain_done drain_tick drain_work drain_mem send_loop]

lemma submit_invariant_aux:
  assumes env: "\<And>e ep. A e \<Longrightarrow> I ep \<Longrightarrow> I (env_step env0 e ep)"
      and pause: "\<And>ep. I ep \<Longrightarrow> I (pauseWorkers ep)"
      and resume: "\<And>ep. I ep \<Longrightarrow> I (resumeWorkers ep)"
      and buf: "\<And>ep. I ep \<Longrightarrow> I (ep\<lparr> droppedTasksBuffer := droppedTasksBuffer ep @ [task0] \<rparr>)"
      and send: "\<And>ep. I ep \<Longrightarrow> \<not> taskChanClosed (basePool ep) \<Longrightarrow>
                  I (ep\<lparr> basePool := (basePool ep)\<lparr> taskChan := taskChan (basePool ep) @ [task0] \<rparr> \<rparr>)"
  shows "submit env c es task ep = Some (r, ep', es') \<Longrightarrow> env = env0 \<Longrightarrow> task = task0 \<Longrightarrow>
         I ep \<Longrightarrow> list_all A es \<Longrightarrow>
         I ep' \<and> list_all A es' \<and> r \<noteq> Some QueueFull"
proof (induction env c es task ep rule: submit_cases)
  case (entry env es task ep)
  from entry.prems entry.IH buf [of ep] show ?case
    by (auto simp: submit.simps(1) split: if_splits)
next
  case (resume_stuck env c task ep)
  then show ?case by (simp add: submit.simps(2))
next
  case (resume_done env c deadline es task ep)
  then show ?case by (auto simp: submit.simps(3))
next
  case (resume_tick env c es task ep)
  from resume_tick.prems resume_tick.IH env [of Tick ep] show ?case
    by (auto simp: submit.simps(4) Let_def split: if_splits)
next
  case (resume_work env c v va es task ep)
  from resume_work.prems resume_work.IH env [of "Work v va" ep] show ?case
    by (auto simp: submit.simps(5) Let_def split: if_splits)
next
  case (resume_mem env c v es task ep)
  from resume_mem.prems resume_mem.IH env [of "MemTick v" ep] show ?case
    by (auto simp: submit.simps(6) Let_def split: if_splits)
next
  case (backoff_stuck env task ep)
  then show ?case by (simp add: submit.simps(7))
next
  case (backoff_done env deadline es task ep)
  then show ?case by (auto simp: submit.simps(8))
next
  case (backoff_tick env es task ep)
  then show ?case by (simp add: submit.simps(9))
next
  case (backoff_work env v va es task ep)
  from backoff_work.prems backoff_work.IH env [of "Work v va" ep] show ?case
    by (auto simp: submit.simps(10))
next
  case (backoff_mem env v es task ep)
  from backoff_mem.prems backoff_mem.IH env [of "MemTick v" ep] show ?case
    by (auto simp: submit.simps(11))
next
  case (check_depth env es task ep)
  from check_depth.prems check_depth.IH pause [of ep] show ?case
    by (auto simp: submit.simps(12) Let_def split: if_splits)
next
  case (drain_check env es task ep)
  from drain_check.prems drain_check.IH resume [of ep] show ?case
    by (auto simp: submit.simps(13) split: if_splits)
next
  case (drain_stuck env task ep)
  then show ?case by (simp add: submit.simps(14))
next
  case (drain_done env deadline es task ep)
  then show ?case by (auto simp: submit.simps(15))
next
  case (drain_tick env es task ep)
  then show ?case by (simp add: submit.simps(16))
next
  case (drain_work env v va es task ep)
  from drain_work.prems drain_work.IH env [of "Work v va" ep] show ?case
    by (auto simp: submit.simps(17))
next
  case (drain_mem env v es task ep)
  from drain_mem.prems drain_mem.IH env [of "MemTick v" ep] show ?case
    by (auto simp: submit.simps(18))
next
  case (send_loop env es task ep)
  let ?p = "basePool ep"
  note eq = send_loop.prems(1) [unfolded submit.simps(19) [of env es task ep] Let_def]
  note inv = send_loop.prems(4)
  note evs = send_loop.prems(5)
  note [simp] = send_loop.prems(2,3)
  show ?case
  proof (cases "int (length (taskChan ?p)) < MaxConcurrentFetches (config ?p) \<or> taskChanClosed ?p")
    case True
    show ?thesis
    proof (cases "\<exists>d es1. es = CtxDone d # es1")
      case True
      then obtain d es1 where es: "es = CtxDone d # es1" by blast
      with eq \<open>int (length (taskChan ?p)) < MaxConcurrentFetches (config ?p) \<or> taskChanClosed ?p\<close>
      have "r = Some (ctx_Err d)" "ep' = ep" "es' = es1" by auto
      with inv evs es show ?thesis by simp
    next
      case False
      with eq \<open>int (length (taskChan ?p)) < MaxConcurrentFetches (config ?p) \<or> taskChanClosed ?p\<close>
      have res: "Some (r, ep', es') =
            (if taskChanClosed ?p then Some (Some (Panic ''send on closed channel''), ep, es)
             else Some (None, ep\<lparr> basePool := ?p\<lparr> taskChan := taskChan ?p @ [task] \<rparr> \<rparr>, es))"
        by (auto split: list.splits event.splits)
      show ?thesis
      proof (cases "taskChanClosed ?p")
        case True
        with res inv evs show ?thesis by simp
      next
        case False
        with res have "r = None" "es' = es"
          "ep' = ep\<lparr> basePool := ?p\<lparr> taskChan := taskChan ?p @ [task] \<rparr> \<rparr>" by simp_all
        with send [OF inv False] evs show ?thesis by simp
      qed
    qed
  next
    case False
    note nr = False
    show ?thesis
    proof (cases es)
      case Nil
      with eq nr show ?thesis by simp
    next
      case (Cons e es1)
      show ?thesis
      proof (cases e)
        case Tick
        with Cons eq nr have "submit env Send es1 task ep = Some (r, ep', es')" by simp
        from send_loop.IH(1) [OF refl refl nr Cons Tick this send_loop.prems(2,3) inv] Cons evs
        show ?thesis by simp
      next
        case (CtxDone d)
        with Cons eq nr have "r = Some (ctx_Err d)" "ep' = ep" "es' = es1" by simp_all
        with inv evs Cons show ?thesis by simp
      next
        case (Work i pd)
        with Cons eq nr have "submit env Send es1 task (env_step env (Work i pd) ep) = Some (r, ep', es')"
          by simp
        have "I (env_step env (Work i pd) ep)"
          using env [of "Work i pd" ep] inv evs Cons Work by simp
        from send_loop.IH(2) [OF refl refl nr Cons Work \<open>submit env Send es1 task (env_step env (Work i pd) ep) = Some (r, ep', es')\<close>
               send_loop.prems(2,3) this] Cons evs
        show ?thesis by simp
      next
        case (MemTick a)
        with Cons eq nr have "submit env Send es1 task (env_step env (MemTick a) ep) = Some (r, ep', es')"
          by simp
        have "I (env_step env (MemTick a) ep)"
          using env [of "MemTick a" ep] inv evs Cons MemTick by simp
        from send_loop.IH(3) [OF refl refl nr Cons MemTick \<open>submit env Send es1 task (env_step env (MemTick a) ep) = Some (r, ep', es')\<close>
               send_loop.prems(2,3) this] Cons evs
        show ?thesis by simp
      qed
    qed
  qed
qed

lemma sending_update:
  "{r. AtSend r \<in> set (ws[i := w])} \<subseteq> {r. AtSend r \<in> set ws} \<union> (case w of AtSend r \<Rightarrow> {r} | _ \<Rightarrow> {})"
  using set_update_subset_insert [of ws i w] by (auto split: wstate.splits)

lemma worker_step_config [simp]: "config (worker_step env i pd p) = config p"
  by (simp add: worker_step_def Let_def split: wstate.splits list.splits)

lemma worker_step_accounted:
  assumes "config p = cfg" and "set (taskChan p) \<subseteq> T"
    and "set (resultChan p) \<union> inflight p \<subseteq> R \<union> (\<lambda>t. fst (processTask env cfg t)) ` T"
  shows "set (taskChan (worker_step env i pd p)) \<subseteq> T \<and>
         set (resultChan (worker_step env i pd p)) \<union> inflight (worker_step env i pd p)
           \<subseteq> R \<union> (\<lambda>t. fst (processTask env cfg t)) ` T"
proof (cases "i < length (workers p)")
  case False
  with assms show ?thesis by (simp add: worker_step_def)
next
  case True
  note i = True
  note ex = sending_update [of "workers p" i Exited, simplified]
  note rc = sending_update [of "workers p" i AtRecv, simplified]
  show ?thesis
  proof (cases "workers p ! i")
    case Exited
    with i assms show ?thesis by (simp add: worker_step_def)
  next
    case AtRecv
    show ?thesis
    proof (cases "taskChan p")
      case Nil
      with AtRecv i assms ex show ?thesis
        by (auto simp: worker_step_def Let_def inflight_def)
    next
      case (Cons t ts)
      note sd = sending_update [of "workers p" i "AtSend (fst (processTask env cfg t))", simplified]
      from Cons AtRecv i assms ex sd show ?thesis
        by (auto simp: worker_step_def Let_def inflight_def)
    qed
  next
    case (AtSend r)
    with i have "r \<in> inflight p" by (auto simp: inflight_def dest: nth_mem)
    with AtSend i assms ex rc show ?thesis
      by (auto simp: worker_step_def Let_def inflight_def)
  qed
qed

lemma accounted_pause_resume:
  "accounted env cfg R T ep \<Longrightarrow> accounted env cfg R T (pauseWorkers ep)"
  "accounted env cfg R T ep \<Longrightarrow> accounted env cfg R T (resumeWorkers ep)"
  "accounted env cfg R T ep \<Longrightarrow> accounted env cfg R T (monitorTick alloc ep)"
  by (simp_all add: accounted_def pauseWorkers_def resumeWorkers_def monitorTick_def Let_def)

lemma accounted_env_step:
  assumes "accounted env cfg R T ep"
  shows "accounted env cfg R T (env_step env e ep)"
proof (cases e)
  case (Work i pd)
  from assms have a: "config (basePool ep) = cfg" "set (taskChan (basePool ep)) \<subseteq> T"
    "set (resultChan (basePool ep)) \<union> inflight (basePool ep)
       \<subseteq> R \<union> (\<lambda>t. fst (processTask env cfg t)) ` T"
    "set (droppedTasksBuffer ep) \<subseteq> T"
    by (simp_all add: accounted_def)
  from worker_step_accounted [OF a(1,2,3), of i pd] a(1,4) Work show ?thesis
    by (simp add: accounted_def)
qed (use assms accounted_pause_resume in simp_all)

lemma accounted_buffer:
  "task \<in> T \<Longrightarrow> accounted env cfg R T ep \<Longrightarrow>
   accounted env cfg R T (ep\<lparr> droppedTasksBuffer := droppedTasksBuffer ep @ [task] \<rparr>)"
  by (simp add: accounted_def)

lemma accounted_send:
  "task \<in> T \<Longrightarrow> accounted env cfg R T ep \<Longrightarrow>
   accounted env cfg R T
     (ep\<lparr> basePool := (basePool ep)\<lparr> taskChan := taskChan (basePool ep) @ [task] \<rparr> \<rparr>)"
  by (simp add: accounted_def inflight_def)

lemma submit_accounted:
  assumes "task \<in> T" and "accounted env cfg R T ep"
    and "submit env c es task ep = Some (r, ep', es')"
  shows "accounted env cfg R T ep'"
proof -
  have "accounted env cfg R T ep' \<and> list_all (\<lambda>e. True) es' \<and> r \<noteq> Some QueueFull"
    by (rule submit_invariant_aux [where A = "\<lambda>e. True" and I = "accounted env cfg R T"
              and ?env0.0 = env and ?task0.0 = task, OF _ _ _ _ _ assms(3) refl refl assms(2)])
       (simp_all add: accounted_env_step accounted_pause_resume accounted_buffer accounted_send
          assms(1) list_all_iff)
  then show ?thesis by simp
qed

lemma submit_never_queue_full:
  assumes "submit env c es task ep = Some (r, ep', es')"
  shows "r \<noteq> Some QueueFull"
proof -
  have "True \<and> list_all (\<lambda>e. True) es' \<and> r \<noteq> Some QueueFull"
    by (rule submit_invariant_aux [where A = "\<lambda>e. True" and I = "\<lambda>ep. True"
              and ?env0.0 = env and ?task0.0 = task, OF _ _ _ _ _ assms refl refl])
       (simp_all add: list_all_iff)
  then show ?thesis by simp
qed

lemma submit_no_work:
  assumes "no_work es" and "submit env c es task ep = Some (r, ep', es')"
  shows "resultChan (basePool ep') = resultChan (basePool ep) \<and>
         workers (basePool ep') = workers (basePool ep) \<and> no_work es'"
proof -
  let ?I = "\<lambda>e. resultChan (basePool e) = resultChan (basePool ep) \<and>
                 workers (basePool e) = workers (basePool ep)"
  have "?I ep' \<and> list_all (\<lambda>e. \<not> is_work e) es' \<and> r \<noteq> Some QueueFull"
    by (rule submit_invariant_aux [where A = "\<lambda>e. \<not> is_work e" and I = ?I
              and ?env0.0 = env and ?task0.0 = task, OF _ _ _ _ _ assms(2) refl refl])
       (use assms(1) in \<open>simp_all add: env_step_base no_work_def\<close>)
  then show ?thesis by (simp add: no_work_def)
qed

lemma flush_loop_accounted:
  "set tasks \<subseteq> T \<Longrightarrow> accounted env cfg R T ep \<Longrightarrow>
   flush_loop env es tasks ep = Some (ep', es') \<Longrightarrow> accounted env cfg R T ep'"
proof (induction tasks arbitrary: es ep)
  case Nil
  then show ?case by simp
next
  case (Cons task tasks)
  from Cons.prems(3) obtain r ep1 es1 where
    s: "submit env Entry es task ep = Some (r, ep1, es1)"
    and f: "flush_loop env es1 tasks ep1 = Some (ep', es')"
    by (auto simp: SubmitTaskWithBackpressure_def split: option.splits)
  from Cons.prems(1) have "task \<in> T" by simp
  from submit_accounted [OF this Cons.prems(2) s] have "accounted env cfg R T ep1" .
  with Cons.IH [OF _ _ f] Cons.prems(1) show ?case by simp
qed

lemma flush_loop_no_work:
  "no_work es \<Longrightarrow> flush_loop env es tasks ep = Some (ep', es') \<Longrightarrow>
   resultChan (basePool ep') = resultChan (basePool ep) \<and>
   workers (basePool ep') = workers (basePool ep)"
proof (induction tasks arbitrary: es ep)
  case Nil
  then show ?case by simp
next
  case (Cons task tasks)
  from Cons.prems(2) obtain r ep1 es1 where
    s: "submit env Entry es task ep = Some (r, ep1, es1)"
    and f: "flush_loop env es1 tasks ep1 = Some (ep', es')"
    by (auto simp: SubmitTaskWithBackpressure_def split: option.splits)
  from submit_no_work [OF Cons.prems(1) s] Cons.IH [OF _ f] show ?case by simp
qed

lemma run_workers_accounted:
  "config p = cfg \<Longrightarrow> set (taskChan p) \<subseteq> T \<Longrightarrow>
   set (resultChan p) \<union> inflight p \<subseteq> R \<union> (\<lambda>t. fst (processTask env cfg t)) ` T \<Longrightarrow>
   set (resultChan (run_workers env steps p)) \<subseteq> R \<union> (\<lambda>t. fst (processTask env cfg t)) ` T"
proof (induction steps arbitrary: p)
  case Nil
  then show ?case by simp
next
  case (Cons s steps)
  obtain i pd where s: "s = (i, pd)" by (cases s)
  from worker_step_accounted [OF Cons.prems, of i pd]
  show ?case unfolding s run_workers.simps
    by (intro Cons.IH) (simp_all add: Cons.prems(1))
qed

lemma Pool_Stop_resultChan:
  "resultChan (snd (Pool_Stop env steps p)) =
     (if taskChanClosed p then resultChan p
      else resultChan (run_workers env steps (p\<lparr> cancelled := True, taskChanClosed := True \<rparr>)))"
  by (simp add: Pool_Stop_def Let_def)

lemma accounted_start:
  "accounted env (config (basePool ep))
     (set (resultChan (basePool ep)) \<union> inflight (basePool ep))
     (set (taskChan (basePool ep)) \<union> set (droppedTasksBuffer ep)) ep"
  by (auto simp: accounted_def)

lemma Stop_provenance:
  assumes "EnhancedPool_Stop env es steps ep = Some (r, ep')"
  shows "set (resultChan (basePool ep'))
           \<subseteq> set (resultChan (basePool ep)) \<union> inflight (basePool ep) \<union>
              (\<lambda>t. fst (processTask env (config (basePool ep)) t)) `
                (set (taskChan (basePool ep)) \<union> set (droppedTasksBuffer ep))"
proof (cases "memoryMonitorStop ep")
  case True
  with assms show ?thesis by (auto simp: EnhancedPool_Stop_def)
next
  case False
  let ?cfg = "config (basePool ep)"
  let ?R = "set (resultChan (basePool ep)) \<union> inflight (basePool ep)"
  let ?T = "set (taskChan (basePool ep)) \<union> set (droppedTasksBuffer ep)"
  let ?ep0 = "ep\<lparr> memoryMonitorStop := True, monitorRunning := False, droppedTasksBuffer := [] \<rparr>"
  from False assms obtain ep1 es1 where
    f: "flush_loop env es (droppedTasksBuffer ep) ?ep0 = Some (ep1, es1)"
    and st: "Pool_Stop env steps (basePool ep1) = (r, basePool ep')"
    by (auto simp: EnhancedPool_Stop_def flushBufferedTasks_def Let_def
             split: option.splits prod.splits)
  have "accounted env ?cfg ?R ?T ?ep0"
    using accounted_start [of env ep] by (simp add: accounted_def)
  from flush_loop_accounted [OF _ this f] have a: "accounted env ?cfg ?R ?T ep1" by simp
  then have a1: "config (basePool ep1) = ?cfg" "set (taskChan (basePool ep1)) \<subseteq> ?T"
    "set (resultChan (basePool ep1)) \<union> inflight (basePool ep1)
       \<subseteq> ?R \<union> (\<lambda>t. fst (processTask env ?cfg t)) ` ?T"
    by (simp_all add: accounted_def)
  let ?p1 = "(basePool ep1)\<lparr> cancelled := True, taskChanClosed := True \<rparr>"
  have "set (resultChan (run_workers env steps ?p1)) \<subseteq> ?R \<union> (\<lambda>t. fst (processTask env ?cfg t)) ` ?T"
    by (rule run_workers_accounted) (use a1 in \<open>simp_all add: inflight_def\<close>)
  moreover have "set (resultChan (basePool ep')) \<subseteq> set (resultChan (basePool ep1)) \<union>
                   set (resultChan (run_workers env steps ?p1))"
    using Pool_Stop_resultChan [of env steps "basePool ep1"] unfolding st by (simp split: if_splits)
  ultimately show ?thesis using a1(3) by blast
qed

lemma Stop_no_work:
  assumes "no_work es" and "EnhancedPool_Stop env es [] ep = Some (r, ep')"
  shows "resultChan (basePool ep') = resultChan (basePool ep)"
proof (cases "memoryMonitorStop ep")
  case True
  with assms show ?thesis by (auto simp: EnhancedPool_Stop_def)
next
  case False
  let ?ep0 = "ep\<lparr> memoryMonitorStop := True, monitorRunning := False, droppedTasksBuffer := [] \<rparr>"
  from False assms(2) obtain ep1 es1 where
    f: "flush_loop env es (droppedTasksBuffer ep) ?ep0 = Some (ep1, es1)"
    and st: "Pool_Stop env [] (basePool ep1) = (r, basePool ep')"
    by (auto simp: EnhancedPool_Stop_def flushBufferedTasks_def Let_def
             split: option.splits prod.splits)
  from flush_loop_no_work [OF assms(1) f]
  have "resultChan (basePool ep1) = resultChan (basePool ep)" by simp
  moreover have "resultChan (basePool ep') = resultChan (basePool ep1)"
    using Pool_Stop_resultChan [of env "[]" "basePool ep1"] unfolding st by (simp split: if_splits)
  ultimately show ?thesis by simp
qed

lemma submit_direct:
  assumes "\<not> isPaused ep" "\<not> memoryPressure ep"
    and "GetQueueDepth (basePool ep) < backpressureLimit ep"
    and "int (length (taskChan (basePool ep))) < MaxConcurrentFetches (config (basePool ep))"
    and "\<not> taskChanClosed (basePool ep)"
  shows "submit env Entry [] task ep =
           Some (None, ep\<lparr> basePool := (basePool ep)\<lparr> taskChan := taskChan (basePool ep) @ [task] \<rparr> \<rparr>, [])"
  using assms
  by (simp add: submit.simps(1) submit.simps(12) submit.simps(19) [of env "[]" task ep] Let_def)

lemma flush_loop_direct:
  "\<not> isPaused ep \<Longrightarrow> \<not> memoryPressure ep \<Longrightarrow> \<not> taskChanClosed (basePool ep) \<Longrightarrow>
   int (length (taskChan (basePool ep)) + length tasks) \<le> MaxConcurrentFetches (config (basePool ep)) \<Longrightarrow>
   MaxConcurrentFetches (config (basePool ep)) < backpressureLimit ep \<Longrightarrow>
   flush_loop env [] tasks ep =
     Some (ep\<lparr> basePool := (basePool ep)\<lparr> taskChan := taskChan (basePool ep) @ tasks \<rparr> \<rparr>, [])"
proof (induction tasks arbitrary: ep)
  case Nil
  then show ?case by simp
next
  case (Cons task tasks)
  let ?ep1 = "ep\<lparr> basePool := (basePool ep)\<lparr> taskChan := taskChan (basePool ep) @ [task] \<rparr> \<rparr>"
  have s: "submit env Entry [] task ep = Some (None, ?ep1, [])"
    by (rule submit_direct) (use Cons.prems in \<open>simp_all add: GetQueueDepth_def\<close>)
  have "flush_loop env [] tasks ?ep1 =
          Some (?ep1\<lparr> basePool := (basePool ?ep1)\<lparr> taskChan := taskChan (basePool ?ep1) @ tasks \<rparr> \<rparr>, [])"
    by (rule Cons.IH) (use Cons.prems in simp_all)
  with s show ?case by (simp add: SubmitTaskWithBackpressure_def)
qed

lemma Stop_direct:
  assumes "\<not> memoryMonitorStop ep" "\<not> isPaused ep" "\<not> memoryPressure ep"
    and "\<not> taskChanClosed (basePool ep)" "\<not> resultChanClosed (basePool ep)"
    and "int (length (taskChan (basePool ep)) + length (droppedTasksBuffer ep))
           \<le> MaxConcurrentFetches (config (basePool ep))"
    and "MaxConcurrentFetches (config (basePool ep)) < backpressureLimit ep"
  shows "EnhancedPool_Stop env [] [] ep =
     Some (None,
       ep\<lparr> memoryMonitorStop := True, monitorRunning := False, droppedTasksBuffer := [],
            basePool := (basePool ep)
              \<lparr> taskChan := taskChan (basePool ep) @ droppedTasksBuffer ep,
                cancelled := True, taskChanClosed := True,
                workers := map (\<lambda>w. Exited) (workers (basePool ep)),
                resultChanClosed := True, activeWorkers := 0, workerPoolSize := 0 \<rparr> \<rparr>)"
proof -
  let ?ep0 = "ep\<lparr> memoryMonitorStop := True, monitorRunning := False, droppedTasksBuffer := [] \<rparr>"
  have f: "flush_loop env [] (droppedTasksBuffer ep) ?ep0 =
        Some (?ep0\<lparr> basePool := (basePool ?ep0)
                \<lparr> taskChan := taskChan (basePool ?ep0) @ droppedTasksBuffer ep \<rparr> \<rparr>, [])"
    by (rule flush_loop_direct) (use assms in simp_all)
  show ?thesis
    using assms(1,4,5)
    by (simp add: EnhancedPool_Stop_def flushBufferedTasks_def Let_def f Pool_Stop_def)
qed

text \<open>
  With the limit that \<open>NewEnhancedPool\<close> sets, twice the capacity of the channel, the
  queue depth never reaches the limit, and the check goes straight on to the send loop.
\<close>

lemma backpressure_never_reached:
  assumes "0 < MaxConcurrentFetches (config (basePool ep))"
    and "backpressureLimit ep = MaxConcurrentFetches (config (basePool ep)) * 2"
    and "int (length (taskChan (basePool ep))) \<le> MaxConcurrentFetches (config (basePool ep))"
  shows "submit env CheckDepth es task ep = submit env Send es task ep"
  using assms by (simp add: submit.simps(12) GetQueueDepth_def)

text \<open>
  Claim C1. A task submitted through \<open>SubmitTaskWithBackpressure\<close> never fails with a
  queue-full error (\<open>submit_never_queue_full\<close>), and when the queue depth reaches the
  backpressure threshold times the capacity the call pauses the pool, polls until the
  depth is below half the threshold, and resumes. The code does not pause there. With a
  capacity of 10 and the threshold 0.8 the limit it uses is 20; with 8 tasks queued the
  ninth submission goes on the channel at once and the pool is never paused; with the
  channel full a submission waits in the send loop, and still nothing is paused.
\<close>

theorem backpressure_threshold_ignored:
  "BackpressureThreshold smallConfig * real_of_int (MaxConcurrentFetches smallConfig) = 8 \<and>
   backpressureLimit (NewEnhancedPool smallConfig 1000) = 20 \<and>
   submit_each textEnv (replicate 8 goTask) (NewEnhancedPool smallConfig 1000) = Some (queued 8) \<and>
   GetQueueDepth (basePool (queued 8)) = 8 \<and>
   SubmitTaskWithBackpressure textEnv [] goTask (queued 8) = Some (None, queued 9, []) \<and>
   isPaused (queued 9) = False \<and>
   pauseChan (queued 9) = pauseChan (queued 8) \<and>
   flushGoroutines (queued 9) = 0 \<and>
   SubmitTaskWithBackpressure textEnv [Tick, CtxDone False] goTask (queued 10) =
     Some (Some Canceled, queued 10, [])"
proof -
  have a: "BackpressureThreshold smallConfig * real_of_int (MaxConcurrentFetches smallConfig) = 8"
    by (simp add: smallConfig_def defaultConfig_def)
  have b: "backpressureLimit (NewEnhancedPool smallConfig 1000) = 20"
    by (simp add: NewEnhancedPool_def smallConfig_def defaultConfig_def)
  have c: "submit_each textEnv (replicate 8 goTask) (NewEnhancedPool smallConfig 1000) = Some (queued 8)"
    by code_simp
  have d: "GetQueueDepth (basePool (queued 8)) = 8"
    by (simp add: queued_def GetQueueDepth_def)
  have e: "SubmitTaskWithBackpressure textEnv [] goTask (queued 8) = Some (None, queued 9, [])"
    by code_simp
  have f: "isPaused (queued 9) = False" "pauseChan (queued 9) = pauseChan (queued 8)"
    "flushGoroutines (queued 9) = 0"
    by (simp_all add: queued_def NewEnhancedPool_def)
  have g: "SubmitTaskWithBackpressure textEnv [Tick, CtxDone False] goTask (queued 10) =
     Some (Some Canceled, queued 10, [])"
    by code_simp
  from a b c d e f g show ?thesis by (intro conjI)
qed

text \<open>
  Claim C2, as amended. After \<open>Stop\<close> of the enhanced pool returns, every result on the
  result channel was there before, was held by a worker that waited to send it, or is what
  \<open>processTask\<close> gives for a task that was on the task channel or in the overflow buffer:
  no other result is made. When no worker takes a step the result channel is as it was
  before \<open>Stop\<close>, so a task that no worker dequeued yields no result. The overflow buffer
  is flushed by submitting its tasks again: on a pool that is not paused and has room,
  \<open>Stop\<close> moves them to the task channel, which it then closes.
\<close>

theorem EnhancedPool_Stop_results:
  "(EnhancedPool_Stop env es steps ep = Some (r, ep') \<longrightarrow>
      set (resultChan (basePool ep'))
        \<subseteq> set (resultChan (basePool ep)) \<union> inflight (basePool ep) \<union>
           (\<lambda>t. fst (processTask env (config (basePool ep)) t)) `
             (set (taskChan (basePool ep)) \<union> set (droppedTasksBuffer ep))) \<and>
   (no_work es \<and> EnhancedPool_Stop env es [] ep = Some (r, ep') \<longrightarrow>
      resultChan (basePool ep') = resultChan (basePool ep)) \<and>
   (\<not> memoryMonitorStop ep \<and> \<not> isPaused ep \<and> \<not> memoryPressure ep \<and>
    \<not> taskChanClosed (basePool ep) \<and> \<not> resultChanClosed (basePool ep) \<and>
    int (length (taskChan (basePool ep)) + length (droppedTasksBuffer ep))
      \<le> MaxConcurrentFetches (config (basePool ep)) \<and>
    MaxConcurrentFetches (config (basePool ep)) < backpressureLimit ep \<longrightarrow>
      EnhancedPool_Stop env [] [] ep =
        Some (None,
          ep\<lparr> memoryMonitorStop := True, monitorRunning := False, droppedTasksBuffer := [],
               basePool := (basePool ep)
                 \<lparr> taskChan := taskChan (basePool ep) @ droppedTasksBuffer ep,
                   cancelled := True, taskChanClosed := True,
                   workers := map (\<lambda>w. Exited) (workers (basePool ep)),
                   resultChanClosed := True, activeWorkers := 0, workerPoolSize := 0 \<rparr> \<rparr>))"
proof (intro conjI impI)
  assume "EnhancedPool_Stop env es steps ep = Some (r, ep')"
  then show "set (resultChan (basePool ep'))
        \<subseteq> set (resultChan (basePool ep)) \<union> inflight (basePool ep) \<union>
           (\<lambda>t. fst (processTask env (config (basePool ep)) t)) `
             (set (taskChan (basePool ep)) \<union> set (droppedTasksBuffer ep))"
    by (rule Stop_provenance)
next
  assume "no_work es \<and> EnhancedPool_Stop env es [] ep = Some (r, ep')"
  then show "resultChan (basePool ep') = resultChan (basePool ep)"
    using Stop_no_work by blast
next
  assume "\<not> memoryMonitorStop ep \<and> \<not> isPaused ep \<and> \<not> memoryPressure ep \<and>
    \<not> taskChanClosed (basePool ep) \<and> \<not> resultChanClosed (basePool ep) \<and>
    int (length (taskChan (basePool ep)) + length (droppedTasksBuffer ep))
      \<le> MaxConcurrentFetches (config (basePool ep)) \<and>
    MaxConcurrentFetches (config (basePool ep)) < backpressureLimit ep"
  then show "EnhancedPool_Stop env [] [] ep =
        Some (None,
          ep\<lparr> memoryMonitorStop := True, monitorRunning := False, droppedTasksBuffer := [],
               basePool := (basePool ep)
                 \<lparr> taskChan := taskChan (basePool ep) @ droppedTasksBuffer ep,
                   cancelled := True, taskChanClosed := True,
                   workers := map (\<lambda>w. Exited) (workers (basePool ep)),
                   resultChanClosed := True, activeWorkers := 0, workerPoolSize := 0 \<rparr> \<rparr>)"
    by (intro Stop_direct) simp_all
qed

theorem EnhancedPool_Stop_results_witness:
  "EnhancedPool_Stop textEnv [] [] started_queued = Some (None, stopped_queued) \<and>
   no_work [] \<and>
   taskChan (basePool started_queued) = [goTask] \<and>
   resultChan (basePool started_queued) = [] \<and>
   resultChan (basePool stopped_queued) = resultChan (basePool started_queued) \<and>
   set (resultChan (basePool stopped_queued))
     \<subseteq> set (resultChan (basePool started_queued)) \<union> inflight (basePool started_queued) \<union>
        (\<lambda>t. fst (processTask textEnv (config (basePool started_queued)) t)) `
          (set (taskChan (basePool started_queued)) \<union> set (droppedTasksBuffer started_queued)) \<and>
   taskChan (basePool stopped_queued) = [goTask]"
proof -
  note T = EnhancedPool_Stop_results
    [where env = textEnv and es = "[]" and steps = "[]" and ep = started_queued and r = None
       and ep' = stopped_queued]
  have pre: "\<not> memoryMonitorStop started_queued \<and> \<not> isPaused started_queued \<and>
    \<not> memoryPressure started_queued \<and>
    \<not> taskChanClosed (basePool started_queued) \<and> \<not> resultChanClosed (basePool started_queued) \<and>
    int (length (taskChan (basePool started_queued)) + length (droppedTasksBuffer started_queued))
      \<le> MaxConcurrentFetches (config (basePool started_queued)) \<and>
    MaxConcurrentFetches (config (basePool started_queued)) < backpressureLimit started_queued"
    by code_simp
  have same: "started_queued\<lparr> memoryMonitorStop := True, monitorRunning := False, droppedTasksBuffer := [],
               basePool := (basePool started_queued)
                 \<lparr> taskChan := taskChan (basePool started_queued) @ droppedTasksBuffer started_queued,
                   cancelled := True, taskChanClosed := True,
                   workers := map (\<lambda>w. Exited) (workers (basePool started_queued)),
                   resultChanClosed := True, activeWorkers := 0, workerPoolSize := 0 \<rparr> \<rparr> =
              stopped_queued"
    by code_simp
  have stop: "EnhancedPool_Stop textEnv [] [] started_queued = Some (None, stopped_queued)"
    using T [THEN conjunct2, THEN conjunct2, THEN mp, OF pre] unfolding same .
  have nw: "no_work []" by (simp add: no_work_def)
  have q: "taskChan (basePool started_queued) = [goTask]" "resultChan (basePool started_queued) = []"
    by (simp_all add: started_queued_def) code_simp
  have eq: "resultChan (basePool stopped_queued) = resultChan (basePool started_queued)"
    using T [THEN conjunct2, THEN conjunct1, THEN mp, OF conjI, OF nw stop] .
  note prov = T [THEN conjunct1, THEN mp, OF stop]
  have tc: "taskChan (basePool stopped_queued) = [goTask]"
    by (simp add: stopped_queued_def started_queued_def)
  from stop nw q eq prov tc show ?thesis by (intro conjI)
qed

text \<open>
  Claim C2 as the specification states it fails on the code. One task is submitted to the
  started pool and \<open>Stop\<close> is called before the worker dequeues it: afterwards the result
  channel is empty and the task is still on the closed task channel. A task buffered while
  the pool is paused is buffered again by the flush of \<open>Stop\<close>, whose submission ends
  when its context times out; no result is made for it either.
\<close>

theorem Stop_orphans_counterexample:
  "SubmitTaskWithBackpressure textEnv [] goTask started = Some (None, started_queued, []) \<and>
   EnhancedPool_Stop textEnv [] [] started_queued = Some (None, stopped_queued) \<and>
   resultChan (basePool stopped_queued) = [] \<and>
   taskChan (basePool stopped_queued) = [goTask] \<and>
   SubmitTaskWithBackpressure textEnv [CtxDone False] goTask (monitorTick 750 started) =
     Some (Some Canceled, paused_buffered, []) \<and>
   droppedTasksBuffer paused_buffered = [goTask] \<and>
   EnhancedPool_Stop textEnv [CtxDone True] [] paused_buffered = Some (None, stopped_buffered) \<and>
   resultChan (basePool stopped_buffered) = [] \<and>
   droppedTasksBuffer stopped_buffered = [goTask]"
proof -
  have a: "SubmitTaskWithBackpressure textEnv [] goTask started = Some (None, started_queued, [])"
    by code_simp
  have b: "EnhancedPool_Stop textEnv [] [] started_queued = Some (None, stopped_queued)"
    by code_simp
  have c: "resultChan (basePool stopped_queued) = []" by code_simp
  have d: "taskChan (basePool stopped_queued) = [goTask]"
    by (simp add: stopped_queued_def started_queued_def)
  have e: "SubmitTaskWithBackpressure textEnv [CtxDone False] goTask (monitorTick 750 started) =
     Some (Some Canceled, paused_buffered, [])"
    by code_simp
  have f: "droppedTasksBuffer paused_buffered = [goTask]" by (simp add: paused_buffered_def)
  have g: "EnhancedPool_Stop textEnv [CtxDone True] [] paused_buffered = Some (None, stopped_buffered)"
    by code_simp
  have h: "resultChan (basePool stopped_buffered) = []" by code_simp
  have i: "droppedTasksBuffer stopped_buffered = [goTask]"
    by (simp add: stopped_buffered_def paused_buffered_def)
  from a b c d e f g h i show ?thesis by (intro conjI)
qed

end
